theory Spec2Isabelle
  imports Complex_Main
begin

section \<open>The variable plotter of dworp (src/dworp/plot.py)\<close>

text \<open>
  A shallow embedding of the class \<open>VariablePlotter\<close>. The plotter object is a record
  holding the attributes that \<open>__init__\<close> sets; every method is a function on the pair of
  the plotter and the state of the drawing backend, and returns either the pair after the
  call or the exception raised together with the pair as the exception leaves it (Python
  mutates the object in place, so what was appended before a raise stays appended).

  Numbers: the simulated time \<open>now\<close> is an \<open>int\<close> (it is formatted with \<open>05d\<close>); sampled
  values and axis limits are \<open>real\<close>, so the three arithmetic operations of
  \<open>set_axes_limits\<close> are exact here where Python rounds to a float. Assertions are
  taken as enabled. The calls into matplotlib are taken not to raise (in particular the
  figure has its axes, \<open>self.fig.axes[0]\<close>, once a line is drawn); what the backend
  answers during a call (\<open>axes.get_ylim()\<close>, \<open>plt.get_fignums()\<close>) and the attributes of
  \<open>env\<close> are inputs of the call. The backend calls that change nothing the plotter reads
  or writes later (\<open>plt.ion\<close>, \<open>plt.draw\<close>, \<open>plt.pause\<close>, the tick locator of the time
  axis) leave no trace in the model; \<open>stop\<close>, which only closes the figure, and the class
  \<open>PlotPauseObserver\<close> are not needed for the properties below.
\<close>

subsection \<open>Python values and built-ins\<close>

datatype error =
    AssertionError
  | IndexError
  | AttributeError string
  | KeyError string
  | ValueError
  | SystemExit

text \<open>An argument that is either one string or a list of strings (\<open>var\<close>, \<open>fmt\<close>).\<close>

datatype str_or_list = Str string | StrList "string list"

text \<open>\<open>[x] if isinstance(x, str) else x\<close>\<close>

fun as_list :: "str_or_list \<Rightarrow> string list" where
  "as_list (Str s) = [s]"
| "as_list (StrList l) = l"

text \<open>Truth value of an optional string: \<open>None\<close>, \<open>False\<close> and \<open>""\<close> are false.\<close>

fun truthy :: "string option \<Rightarrow> bool" where
  "truthy None = False"
| "truthy (Some s) = (s \<noteq> [])"

text \<open>
  A \<open>dict\<close> as an association list in insertion order with one entry per key:
  storing under a key that is present replaces the value where it stands.
\<close>

fun dict_set :: "('k \<times> 'v) list \<Rightarrow> 'k \<Rightarrow> 'v \<Rightarrow> ('k \<times> 'v) list" where
  "dict_set [] k v = [(k, v)]"
| "dict_set ((k', v') # d) k v = (if k' = k then (k, v) # d else (k', v') # dict_set d k v)"

text \<open>\<open>dict(zip(ks, vs))\<close>\<close>

definition dict_zip :: "'k list \<Rightarrow> 'v list \<Rightarrow> ('k \<times> 'v) list" where
  "dict_zip ks vs = fold (\<lambda>(k, v) d. dict_set d k v) (zip ks vs) []"

text \<open>\<open>{name: [] for name in names}\<close>\<close>

definition dict_empty_lists :: "'k list \<Rightarrow> ('k \<times> 'v list) list" where
  "dict_empty_lists names = fold (\<lambda>name d. dict_set d name []) names []"

text \<open>\<open>sep.join(xs)\<close>\<close>

fun join :: "string \<Rightarrow> string list \<Rightarrow> string" where
  "join sep [] = []"
| "join sep [x] = x"
| "join sep (x # y # ys) = x @ sep @ join sep (y # ys)"

text \<open>
  \<open>xs[i:]\<close>: a negative start counts from the end, and a start outside the list is
  clamped to it.
\<close>

definition slice_from :: "int \<Rightarrow> 'a list \<Rightarrow> 'a list" where
  "slice_from i xs =
     (let n = int (length xs);
          j = (if i < 0 then max (n + i) 0 else min i n)
      in drop (nat j) xs)"

text \<open>
  \<open>min(xs)\<close> and \<open>max(xs)\<close> of one iterable, for the comparison \<open>lt\<close> of its items:
  \<open>ValueError\<close> on an empty one; otherwise the first item is kept until a later one is
  smaller (larger).
\<close>

fun py_min :: "('a \<Rightarrow> 'a \<Rightarrow> bool) \<Rightarrow> 'a list \<Rightarrow> error + 'a" where
  "py_min lt [] = Inl ValueError"
| "py_min lt (x # xs) = Inr (fold (\<lambda>y m. if lt y m then y else m) xs x)"

fun py_max :: "('a \<Rightarrow> 'a \<Rightarrow> bool) \<Rightarrow> 'a list \<Rightarrow> error + 'a" where
  "py_max lt [] = Inl ValueError"
| "py_max lt (x # xs) = Inr (fold (\<lambda>y m. if lt m y then y else m) xs x)"

text \<open>
  \<open>xs < ys\<close> on lists: the items at the first position where the lists differ decide;
  a proper prefix is smaller.
\<close>

fun list_less :: "'a::linorder list \<Rightarrow> 'a list \<Rightarrow> bool" where
  "list_less [] [] = False"
| "list_less [] (y # ys) = True"
| "list_less (x # xs) [] = False"
| "list_less (x # xs) (y # ys) = (if x = y then list_less xs ys else x < y)"

text \<open>\<open>"{0:05d}".format(n)\<close>: decimal digits, zero-padded behind the sign to width 5.\<close>

definition digit_char :: "nat \<Rightarrow> char" where
  "digit_char d = char_of (48 + d)"

fun dec_digits :: "nat \<Rightarrow> string" where
  "dec_digits n = (if n < 10 then [digit_char n] else dec_digits (n div 10) @ [digit_char (n mod 10)])"

declare dec_digits.simps [simp del]

definition format_05d :: "int \<Rightarrow> string" where
  "format_05d n =
     (let ds = dec_digits (nat \<bar>n\<bar>);
          sgn = (if n < 0 then ''-'' else [])
      in sgn @ replicate (5 - length sgn - length ds) (CHR ''0'') @ ds)"

text \<open>\<open>os.path.join(a, b)\<close> on POSIX.\<close>

definition os_path_join :: "string \<Rightarrow> string \<Rightarrow> string" where
  "os_path_join a b =
     (if b \<noteq> [] \<and> hd b = CHR ''/'' then b
      else if a = [] \<or> last a = CHR ''/'' then a @ b
      else a @ ''/'' @ b)"

subsection \<open>The plotter object, the backend and the inputs of a call\<close>

type_synonym series = "(string \<times> real list) list"

record plotter =
  var_names :: "string list"
  fmt :: "(string \<times> string) list"
  scrolling :: int
  title :: string
  xlabel :: string
  ylabel :: string
  xlim :: "(real \<times> real) option"
  ylim :: "(real \<times> real) option"
  legend :: "string option"
  pause :: real
  output_dir :: "string option"
  fig :: "nat option"
  axes_margin :: real
  time :: "int list"
  data :: series

text \<open>
  What the plotter has asked of matplotlib: the figures created, the window title, what
  is on the current figure since the last \<open>plt.clf()\<close> (lines as \<open>(x, y, fmt, label)\<close>,
  legend, labels, limits set by hand; \<open>None\<close> leaves a limit to the backend's
  auto-scaling), and the paths given to \<open>savefig\<close>, oldest first.
\<close>

record backend =
  fig_count :: nat
  window_title :: string
  drawn :: "(int list \<times> real list \<times> string \<times> string) list"
  legend_loc :: "string option"
  axis_xlabel :: string
  axis_ylabel :: string
  axis_xlim :: "(real \<times> real) option"
  axis_ylim :: "(real \<times> real) option"
  saved :: "string list"

definition backend0 :: backend where
  "backend0 = \<lparr>fig_count = 0, window_title = [], drawn = [], legend_loc = None,
     axis_xlabel = [], axis_ylabel = [], axis_xlim = None, axis_ylim = None, saved = []\<rparr>"

text \<open>
  The arguments and the surroundings of one \<open>start\<close> or \<open>step\<close> call: the time, the
  attributes of \<open>env\<close>, the value-axis limits the backend has computed for the lines just
  drawn, and the figure numbers that are open after the pause.
\<close>

record tick =
  now :: int
  env :: "string \<rightharpoonup> real"
  get_ylim :: "real \<times> real"
  get_fignums :: "nat list"

type_synonym world = "plotter \<times> backend"
type_synonym outcome = "error \<times> world + world"

subsection \<open>Construction\<close>

definition prepare_format_option :: "string list \<Rightarrow> str_or_list \<Rightarrow> error + (string \<times> string) list" where
  "prepare_format_option names f =
     (let format0 = as_list f in
      if \<not> (length format0 = 1 \<or> length format0 = length names) then Inl AssertionError
      else
        let format1 = (if length format0 \<noteq> length names
                       then concat (replicate (length names) format0) else format0)
        in Inr (dict_zip names format1))"

definition prepare_default_title :: "string list \<Rightarrow> error + string" where
  "prepare_default_title names =
     (if length names = 0 then (case names of [] \<Rightarrow> Inl IndexError | n # _ \<Rightarrow> Inr n)
      else Inr (join '' & '' names))"

text \<open>\<open>x if x else self._prepare_default_title()\<close>\<close>

definition or_default_title :: "string option \<Rightarrow> string list \<Rightarrow> error + string" where
  "or_default_title x names =
     (case x of
        None \<Rightarrow> prepare_default_title names
      | Some s \<Rightarrow> if s \<noteq> [] then Inr s else prepare_default_title names)"

definition init ::
  "str_or_list \<Rightarrow> str_or_list \<Rightarrow> int \<Rightarrow> string option \<Rightarrow> string \<Rightarrow> string option \<Rightarrow>
   (real \<times> real) option \<Rightarrow> (real \<times> real) option \<Rightarrow> string option \<Rightarrow> real \<Rightarrow> string option \<Rightarrow>
   error + plotter" where
  "init var f scrolling0 title0 xlabel0 ylabel0 xlim0 ylim0 legend0 pause0 output_dir0 =
     (let names = as_list var in
      case prepare_format_option names f of
        Inl e \<Rightarrow> Inl e
      | Inr fm \<Rightarrow>
         (case or_default_title title0 names of
            Inl e \<Rightarrow> Inl e
          | Inr t \<Rightarrow>
             (case or_default_title ylabel0 names of
                Inl e \<Rightarrow> Inl e
              | Inr yl \<Rightarrow>
                 Inr \<lparr>var_names = names, fmt = fm, scrolling = scrolling0, title = t,
                      xlabel = xlabel0, ylabel = yl, xlim = xlim0, ylim = ylim0,
                      legend = legend0, pause = pause0, output_dir = output_dir0,
                      fig = None, axes_margin = 1 / 100, time = [],
                      data = dict_empty_lists names\<rparr>)))"

subsection \<open>Sampling, window selection and drawing\<close>

text \<open>
  \<open>for name in self.var_names: self.data[name].append(getattr(env, name))\<close>: the list
  is looked up first, then the attribute is read, then the value is appended.
\<close>

fun sample_vars :: "string list \<Rightarrow> (string \<rightharpoonup> real) \<Rightarrow> series \<Rightarrow> error \<times> series + series" where
  "sample_vars [] e d = Inr d"
| "sample_vars (name # names) e d =
     (case map_of d name of
        None \<Rightarrow> Inl (KeyError name, d)
      | Some vs \<Rightarrow>
         (case e name of
            None \<Rightarrow> Inl (AttributeError name, d)
          | Some v \<Rightarrow> sample_vars names e (dict_set d name (vs @ [v]))))"

text \<open>The pair \<open>(plot_time, plot_data)\<close> of \<open>plot\<close>.\<close>

definition select_window :: "plotter \<Rightarrow> int list \<times> series" where
  "select_window self =
     (if scrolling self \<noteq> 0
      then (slice_from (-1 * scrolling self) (time self),
            map (\<lambda>(name, vs). (name, slice_from (-1 * scrolling self) vs)) (data self))
      else (time self, data self))"

text \<open>\<open>for name, data in plot_data.items(): plt.plot(plot_time, data, self.fmt[name], label=name)\<close>\<close>

fun draw_lines :: "(string \<times> string) list \<Rightarrow> int list \<Rightarrow> series \<Rightarrow> backend \<Rightarrow> error \<times> backend + backend" where
  "draw_lines fm plot_time [] plt = Inr plt"
| "draw_lines fm plot_time ((name, vs) # rest) plt =
     (case map_of fm name of
        None \<Rightarrow> Inl (KeyError name, plt)
      | Some tok \<Rightarrow>
         draw_lines fm plot_time rest (plt\<lparr>drawn := drawn plt @ [(plot_time, vs, tok, name)]\<rparr>))"

subsection \<open>The axis-limit policy\<close>

text \<open>The value-axis part: \<open>None\<close> when \<open>self.ylim\<close> is not given.\<close>

definition y_limits :: "plotter \<Rightarrow> real \<times> real \<Rightarrow> error + (real \<times> real) option" where
  "y_limits self auto =
     (case ylim self of
        None \<Rightarrow> Inr None
      | Some (y0, y1) \<Rightarrow>
         (let margin = axes_margin self * \<bar>snd auto - fst auto\<bar> in
          case py_min list_less (map snd (data self)) of
            Inl e \<Rightarrow> Inl e
          | Inr lowest \<Rightarrow>
             (case py_min (<) lowest of
                Inl e \<Rightarrow> Inl e
              | Inr lo \<Rightarrow>
                 (let ymin = min y0 (lo - margin) in
                  case py_max list_less (map snd (data self)) of
                    Inl e \<Rightarrow> Inl e
                  | Inr highest \<Rightarrow>
                     (case py_max (<) highest of
                        Inl e \<Rightarrow> Inl e
                      | Inr hi \<Rightarrow>
                         (let ymax = max y1 (hi + margin) in Inr (Some (ymin, ymax))))))))"

text \<open>The time-axis part: \<open>None\<close> when \<open>self.xlim\<close> is not given.\<close>

definition x_limits :: "plotter \<Rightarrow> error + (real \<times> real) option" where
  "x_limits self =
     (case xlim self of
        None \<Rightarrow> Inr None
      | Some (x0, x1) \<Rightarrow>
         (case py_min (<) (time self) of
            Inl e \<Rightarrow> Inl e
          | Inr tmin \<Rightarrow>
             (let xmin = min x0 (real_of_int tmin) in
              case py_max (<) (time self) of
                Inl e \<Rightarrow> Inl e
              | Inr tmax \<Rightarrow>
                 (let xmax = max x1 (real_of_int tmax) in Inr (Some (xmin, xmax))))))"

definition set_axes_limits :: "plotter \<Rightarrow> real \<times> real \<Rightarrow> backend \<Rightarrow> error \<times> backend + backend" where
  "set_axes_limits self auto axes =
     (case y_limits self auto of
        Inl e \<Rightarrow> Inl (e, axes)
      | Inr yl \<Rightarrow>
         (let axes1 = (case yl of None \<Rightarrow> axes | Some l \<Rightarrow> axes\<lparr>axis_ylim := Some l\<rparr>) in
          case x_limits self of
            Inl e \<Rightarrow> Inl (e, axes1)
          | Inr xl \<Rightarrow>
             Inr (case xl of None \<Rightarrow> axes1 | Some l \<Rightarrow> axes1\<lparr>axis_xlim := Some l\<rparr>)))"

subsection \<open>The methods\<close>

definition plot :: "tick \<Rightarrow> world \<Rightarrow> outcome" where
  "plot t w =
     (case w of (self, plt) \<Rightarrow>
       (let self1 = self\<lparr>time := time self @ [now t]\<rparr> in
        (case sample_vars (var_names self1) (env t) (data self1) of
           Inl (e, d) \<Rightarrow> Inl (e, (self1\<lparr>data := d\<rparr>, plt))
         | Inr d \<Rightarrow>
            (let self2 = self1\<lparr>data := d\<rparr>;
                 (plot_time, plot_data) = select_window self2 in
             (case draw_lines (fmt self2) plot_time plot_data plt of
                Inl (e, plt1) \<Rightarrow> Inl (e, (self2, plt1))
              | Inr plt1 \<Rightarrow>
                 (let plt2 = (if truthy (legend self2) then plt1\<lparr>legend_loc := legend self2\<rparr>
                              else plt1);
                      plt3 = plt2\<lparr>axis_xlabel := xlabel self2, axis_ylabel := ylabel self2\<rparr> in
                  (case set_axes_limits self2 (get_ylim t) plt3 of
                     Inl (e, plt4) \<Rightarrow> Inl (e, (self2, plt4))
                   | Inr plt4 \<Rightarrow> Inr (self2, plt4))))))))"

definition prepare :: "world \<Rightarrow> world" where
  "prepare w =
     (case w of (self, plt) \<Rightarrow>
      let n = Suc (fig_count plt) in
      (self\<lparr>fig := Some n\<rparr>, plt\<lparr>fig_count := n, window_title := title self\<rparr>))"

text \<open>\<open>plt.clf()\<close>\<close>

definition clf :: "backend \<Rightarrow> backend" where
  "clf plt = plt\<lparr>drawn := [], legend_loc := None, axis_xlabel := [], axis_ylabel := [],
                 axis_xlim := None, axis_ylim := None\<rparr>"

definition save :: "int \<Rightarrow> world \<Rightarrow> world" where
  "save n w =
     (case w of (self, plt) \<Rightarrow>
      (case output_dir self of
         None \<Rightarrow> (self, plt)
       | Some dir \<Rightarrow>
          (let path = os_path_join dir (format_05d n @ ''.png'')
           in (self, plt\<lparr>saved := saved plt @ [path]\<rparr>))))"

text \<open>
  \<open>update\<close>: \<open>self.fig.number\<close> raises on a plotter that was never started; \<open>quit()\<close>
  raises \<open>SystemExit\<close> when no figure is open after the pause.
\<close>

definition update :: "tick \<Rightarrow> world \<Rightarrow> outcome" where
  "update t w =
     (case w of (self, plt) \<Rightarrow>
       (case fig self of
          None \<Rightarrow> Inl (AttributeError ''number'', (self, plt))
        | Some n \<Rightarrow>
           (case plot t (self, clf plt) of
              Inl x \<Rightarrow> Inl x
            | Inr (self1, plt1) \<Rightarrow>
               (if get_fignums t = [] then Inl (SystemExit, (self1, plt1))
                else if truthy (output_dir self1) then Inr (save (now t) (self1, plt1))
                else Inr (self1, plt1)))))"

definition start :: "tick \<Rightarrow> world \<Rightarrow> outcome" where
  "start t w = update t (prepare w)"

definition step :: "tick \<Rightarrow> world \<Rightarrow> outcome" where
  "step t w = update t w"

text \<open>The driver: a sequence of calls, ended by the first exception.\<close>

datatype call = Start tick | Step tick

fun do_call :: "call \<Rightarrow> world \<Rightarrow> outcome" where
  "do_call (Start t) w = start t w"
| "do_call (Step t) w = step t w"

fun run :: "call list \<Rightarrow> world \<Rightarrow> outcome" where
  "run [] w = Inr w"
| "run (c # cs) w = (case do_call c w of Inl x \<Rightarrow> Inl x | Inr w' \<Rightarrow> run cs w')"

text \<open>The state a call leaves behind, whether it returned or raised.\<close>

fun after :: "outcome \<Rightarrow> world" where
  "after (Inl (e, w)) = w"
| "after (Inr w) = w"

subsection \<open>Notions used to state the properties\<close>

text \<open>The tick a call is made with.\<close>

fun tick_of :: "call \<Rightarrow> tick" where
  "tick_of (Start t) = t"
| "tick_of (Step t) = t"

text \<open>
  What construction establishes and every call keeps: \<open>self.data\<close> has one entry for
  each tracked name and no other, and \<open>self.fmt\<close> has a token for each tracked name.
\<close>

definition wf :: "plotter \<Rightarrow> bool" where
  "wf self \<longleftrightarrow>
     distinct (map fst (data self))
   \<and> fst ` set (data self) = set (var_names self)
   \<and> set (var_names self) \<subseteq> fst ` set (fmt self)"

text \<open>Every tracked name is an attribute of the \<open>env\<close> of the tick.\<close>

definition readable :: "plotter \<Rightarrow> tick \<Rightarrow> bool" where
  "readable self t \<longleftrightarrow> (\<forall>n \<in> set (var_names self). env t n \<noteq> None)"

text \<open>
  The series of every tracked variable has as many values as there are recorded times.
\<close>

definition aligned :: "plotter \<Rightarrow> bool" where
  "aligned self \<longleftrightarrow>
     (\<forall>n \<in> set (var_names self). \<exists>vs. map_of (data self) n = Some vs \<and> length vs = length (time self))"

text \<open>The last \<open>min n (length xs)\<close> elements of \<open>xs\<close>, in the order of \<open>xs\<close>.\<close>

definition last_elems :: "nat \<Rightarrow> 'a list \<Rightarrow> 'a list" where
  "last_elems n xs = drop (length xs - min n (length xs)) xs"

text \<open>All values accumulated for all variables.\<close>

definition all_values :: "series \<Rightarrow> real list" where
  "all_values d = concat (map snd d)"

text \<open>What no call changes: the configuration and the keys of \<open>self.data\<close>.\<close>

definition same_config :: "plotter \<Rightarrow> plotter \<Rightarrow> bool" where
  "same_config p q \<longleftrightarrow>
     var_names q = var_names p \<and> fmt q = fmt p \<and> scrolling q = scrolling p \<and> xlim q = xlim p
   \<and> ylim q = ylim p \<and> output_dir q = output_dir p \<and> axes_margin q = axes_margin p
   \<and> map fst (data q) = map fst (data p)"

text \<open>
  The value-axis limits as the specification words them: the floor limits merged with
  the minimum and the maximum over all accumulated values of all variables, widened by
  1% of the span the backend computed.
\<close>

definition spec_y_limits :: "real \<times> real \<Rightarrow> series \<Rightarrow> real \<times> real \<Rightarrow> real \<times> real" where
  "spec_y_limits fl d auto =
     (let margin = (1 / 100) * \<bar>snd auto - fst auto\<bar>
      in (min (fst fl) (Min (set (all_values d)) - margin),
          max (snd fl) (Max (set (all_values d)) + margin)))"

subsection \<open>Concrete runs\<close>

text \<open>
  A plotter of the one variable \<open>temp\<close> as \<open>__init__\<close> builds it (see \<open>init_temp\<close>
  below), and a tick on which \<open>env.temp\<close> is \<open>v\<close> and the figure is open.
\<close>

definition temp_plotter ::
  "int \<Rightarrow> (real \<times> real) option \<Rightarrow> (real \<times> real) option \<Rightarrow> string option \<Rightarrow> plotter" where
  "temp_plotter sc xl yl od =
     \<lparr>var_names = [''temp''], fmt = [(''temp'', ''b'')], scrolling = sc, title = ''temp'',
      xlabel = ''Time'', ylabel = ''temp'', xlim = xl, ylim = yl, legend = None,
      pause = 1 / 1000, output_dir = od, fig = None, axes_margin = 1 / 100, time = [],
      data = [(''temp'', [])]\<rparr>"

definition temp_tick :: "int \<Rightarrow> real \<Rightarrow> tick" where
  "temp_tick n v = \<lparr>now = n, env = [''temp'' \<mapsto> v], get_ylim = (0, 1), get_fignums = [1]\<rparr>"

text \<open>
  The scenario of the specification: window size 3, \<open>start(0)\<close> with \<open>temp = 10\<close>, then
  \<open>step(1)\<close>, \<open>step(2)\<close>, \<open>step(3)\<close> with \<open>temp = 12, 9, 15\<close>; and two calls of a
  plotter without a window.
\<close>

definition temp_run3 :: world where
  "temp_run3 = after (run [Start (temp_tick 0 10), Step (temp_tick 1 12), Step (temp_tick 2 9)]
                        (temp_plotter 3 None None None, backend0))"

definition temp_run4 :: world where
  "temp_run4 = after (do_call (Step (temp_tick 3 15)) temp_run3)"

definition temp_run2 :: world where
  "temp_run2 = after (run [Start (temp_tick 0 10), Step (temp_tick 1 12)]
                        (temp_plotter 0 None None None, backend0))"

text \<open>
  A plotter of the two variables \<open>a\<close> and \<open>b\<close> with \<open>ylim = [0.5, 3]\<close>, and a tick on
  which the backend has auto-scaled the value axis to \<open>(-0.25, 5.25)\<close>.
\<close>

definition ab_plotter :: plotter where
  "ab_plotter =
     \<lparr>var_names = [''a'', ''b''], fmt = [(''a'', ''b''), (''b'', ''b'')], scrolling = 0,
      title = ''a & b'', xlabel = ''Time'', ylabel = ''a & b'', xlim = None,
      ylim = Some (1 / 2, 3), legend = None, pause = 1 / 1000, output_dir = None, fig = None,
      axes_margin = 1 / 100, time = [], data = [(''a'', []), (''b'', [])]\<rparr>"

definition ab_tick :: "int \<Rightarrow> real \<Rightarrow> real \<Rightarrow> tick" where
  "ab_tick n a b = \<lparr>now = n, env = [''a'' \<mapsto> a, ''b'' \<mapsto> b], get_ylim = (- 1 / 4, 21 / 4),
     get_fignums = [1]\<rparr>"

text \<open>Started with \<open>a = 1, b = 2\<close>, then stepped with \<open>a = 5, b = 0\<close>.\<close>

definition ab_run :: world where
  "ab_run = after (run [Start (ab_tick 0 1 2), Step (ab_tick 1 5 0)] (ab_plotter, backend0))"

text \<open>A tick on which \<open>env\<close> has the attribute \<open>a\<close> and no attribute \<open>b\<close>.\<close>

definition a_only_tick :: "int \<Rightarrow> real \<Rightarrow> tick" where
  "a_only_tick n a = \<lparr>now = n, env = [''a'' \<mapsto> a], get_ylim = (- 1 / 4, 21 / 4), get_fignums = [1]\<rparr>"

text \<open>The plotter of \<open>a\<close> and \<open>b\<close> after \<open>start(0)\<close> with \<open>a = 1, b = 2\<close>.\<close>

definition ab_run1 :: world where
  "ab_run1 = after (run [Start (ab_tick 0 1 2)] (ab_plotter, backend0))"

text \<open>
  The plotter of \<open>temp\<close> with \<open>ylim = (0, 10)\<close>, started with \<open>temp = 2\<close> and then stepped
  with \<open>temp = 20\<close>.
\<close>

definition temp_lim1 :: world where
  "temp_lim1 = after (run [Start (temp_tick 0 2)] (temp_plotter 0 None (Some (0, 10)) None, backend0))"

definition temp_lim2 :: world where
  "temp_lim2 = after (do_call (Step (temp_tick 1 20)) temp_lim1)"

text \<open>
  The plotter of \<open>temp\<close> with \<open>output_dir = "out"\<close>: the calls \<open>start(0)\<close>, \<open>step(1)\<close>,
  \<open>step(2)\<close> with the figure open, and a \<open>start\<close> during which the user closes the figure.
\<close>

definition frames2 :: world where
  "frames2 = after (run [Start (temp_tick 0 10), Step (temp_tick 1 12)]
                      (temp_plotter 0 None None (Some ''out''), backend0))"

definition frames3 :: world where
  "frames3 = after (do_call (Step (temp_tick 2 9)) frames2)"

definition closed_tick :: "int \<Rightarrow> real \<Rightarrow> tick" where
  "closed_tick n v = \<lparr>now = n, env = [''temp'' \<mapsto> v], get_ylim = (0, 1), get_fignums = []\<rparr>"

definition frames_closed :: world where
  "frames_closed = after (do_call (Start (closed_tick 0 10)) (temp_plotter 0 None None (Some ''out''), backend0))"

text \<open>
  The plotter of \<open>temp\<close> with \<open>xlim = (2, 5)\<close> after \<open>start(3)\<close> and \<open>step(1)\<close>, and after
  a further \<open>step(9)\<close>.
\<close>

definition xl_run2 :: world where
  "xl_run2 = after (run [Start (temp_tick 3 10), Step (temp_tick 1 12)]
                      (temp_plotter 0 (Some (2, 5)) None None, backend0))"

definition xl_run3 :: world where
  "xl_run3 = after (do_call (Step (temp_tick 9 9)) xl_run2)"

section \<open>Properties\<close>

subsection \<open>Dictionaries, slices, minimum and maximum\<close>

lemma map_fst_dict_set:
  "map fst (dict_set d k v) = (if k \<in> fst ` set d then map fst d else map fst d @ [k])"
  by (induction d) (auto simp: rev_image_eqI)

lemma map_of_dict_set: "map_of (dict_set d k v) = (map_of d)(k \<mapsto> v)"
  by (induction d) (auto simp: fun_eq_iff)

lemma keys_dict_set: "fst ` set (dict_set d k v) = insert k (fst ` set d)"
  using arg_cong [OF map_fst_dict_set [of d k v], of set]
  by (auto simp del: set_map simp: set_map [symmetric])

lemma distinct_dict_set: "distinct (map fst d) \<Longrightarrow> distinct (map fst (dict_set d k v))"
  by (simp add: map_fst_dict_set)

lemma fold_empty_lists:
  "distinct (map fst d) \<Longrightarrow>
     distinct (map fst (fold (\<lambda>name d. dict_set d name []) names d))
   \<and> fst ` set (fold (\<lambda>name d. dict_set d name []) names d) = fst ` set d \<union> set names
   \<and> (\<forall>n. map_of (fold (\<lambda>name d. dict_set d name []) names d) n
            = (if n \<in> set names then Some [] else map_of d n))"
proof (induction names arbitrary: d)
  case Nil
  then show ?case by simp
next
  case (Cons a names)
  from Cons.IH [OF distinct_dict_set [OF Cons.prems, of a "[]"]]
  show ?case by (auto simp: keys_dict_set map_of_dict_set)
qed

lemma dict_empty_lists_props:
  "distinct (map fst (dict_empty_lists names :: ('k \<times> 'v list) list))"
  "fst ` set (dict_empty_lists names :: ('k \<times> 'v list) list) = set names"
  "map_of (dict_empty_lists names :: ('k \<times> 'v list) list) n = (if n \<in> set names then Some [] else None)"
  using fold_empty_lists [of "[] :: ('k \<times> 'v list) list" names]
  by (simp_all add: dict_empty_lists_def)

lemma fold_dict_set:
  "map_of (fold (\<lambda>(k, v) d. dict_set d k v) kvs d) = map_of d ++ map_of (rev kvs)"
proof (induction kvs arbitrary: d)
  case Nil
  then show ?case by simp
next
  case (Cons kv kvs)
  obtain k v where kv: "kv = (k, v)" by (cases kv)
  show ?case
    by (simp add: kv Cons.IH map_of_dict_set fun_eq_iff map_add_def split: option.splits)
qed

lemma map_of_dict_zip: "map_of (dict_zip ks vs) = map_of (rev (zip ks vs))"
  by (simp add: dict_zip_def fold_dict_set)

lemma map_of_const:
  assumes "k \<in> fst ` set l" and "\<forall>kv \<in> set l. snd kv = tok"
  shows "map_of l k = Some tok"
proof -
  from assms(1) obtain v where "map_of l k = Some v"
    by (metis domD dom_map_of_conv_image_fst)
  moreover from this have "(k, v) \<in> set l" by (rule map_of_SomeD)
  ultimately show ?thesis using assms(2) by auto
qed

lemma dict_zip_replicate:
  assumes "k \<in> set ks"
  shows "map_of (dict_zip ks (replicate (length ks) tok)) k = Some tok"
proof -
  have "k \<in> fst ` set (rev (zip ks (replicate (length ks) tok)))"
    using assms by (simp add: image_iff) (metis fst_conv in_set_impl_in_set_zip1 length_replicate)
  moreover have "\<forall>kv \<in> set (rev (zip ks (replicate (length ks) tok))). snd kv = tok"
    by (auto dest: set_zip_rightD)
  ultimately show ?thesis
    unfolding map_of_dict_zip by (rule map_of_const)
qed

lemma dict_zip_nth:
  assumes "length vs = length ks" and "distinct ks" and "i < length ks"
  shows "map_of (dict_zip ks vs) (ks ! i) = Some (vs ! i)"
proof -
  have "distinct (map fst (zip ks vs))" "distinct (map fst (rev (zip ks vs)))"
    using assms(1,2) by (simp_all add: rev_map [symmetric])
  then have "map_of (rev (zip ks vs)) = map_of (zip ks vs)"
    by (simp add: map_of_inject_set)
  then show ?thesis
    using assms by (simp add: map_of_dict_zip map_of_zip_nth)
qed

lemma keys_dict_zip:
  assumes len: "length vs = length ks"
  shows "fst ` set (dict_zip ks vs) = set ks"
proof -
  have "dom (map_of (dict_zip ks vs)) = set ks"
    using len by (simp add: map_of_dict_zip dom_map_of_conv_image_fst rev_map [symmetric] del: set_rev)
      (metis len map_fst_zip set_map set_rev)
  then show ?thesis by (simp add: dom_map_of_conv_image_fst)
qed

lemma slice_from_neg: "0 < n \<Longrightarrow> slice_from (- n) xs = last_elems (nat n) xs"
  by (auto simp: slice_from_def last_elems_def Let_def max_def min_def nat_diff_distrib'
      intro: arg_cong2 [where f = drop])

lemma length_last_elems: "length (last_elems n xs) = min n (length xs)"
  by (simp add: last_elems_def)

lemma py_min_Min: "py_min (<) (x # xs) = Inr (Min (set (x # xs) :: 'a::linorder set))"
proof -
  have "(\<lambda>y m. if y < m then y else m) = (min :: 'a \<Rightarrow> 'a \<Rightarrow> 'a)"
    by (auto simp: fun_eq_iff min_def)
  then show ?thesis
    using Min.set_eq_fold [of x xs] by simp
qed

lemma py_max_Max: "py_max (<) (x # xs) = Inr (Max (set (x # xs) :: 'a::linorder set))"
proof -
  have "(\<lambda>y m. if m < y then y else m) = (max :: 'a \<Rightarrow> 'a \<Rightarrow> 'a)"
    by (auto simp: fun_eq_iff max_def)
  then show ?thesis
    using Max.set_eq_fold [of x xs] by simp
qed

subsection \<open>Sampling\<close>

lemma sample_vars_keys:
  "(sample_vars names e d = Inr d' \<longrightarrow> map fst d' = map fst d)
 \<and> (sample_vars names e d = Inl (x, d') \<longrightarrow> map fst d' = map fst d)"
proof (induction names e d rule: sample_vars.induct)
  case (1 e d)
  then show ?case by simp
next
  case (2 name names e d)
  show ?case
  proof (cases "map_of d name")
    case None
    then show ?thesis by simp
  next
    case (Some vs)
    then have k: "name \<in> fst ` set d"
      by (metis domI dom_map_of_conv_image_fst)
    show ?thesis
    proof (cases "e name")
      case None
      with Some show ?thesis by simp
    next
      case (Some v)
      with \<open>map_of d name = Some vs\<close> 2 [of vs v] k show ?thesis
        by (simp add: map_fst_dict_set)
    qed
  qed
qed

lemma sample_vars_untouched:
  "n \<notin> set names \<Longrightarrow>
     (sample_vars names e d = Inr d' \<longrightarrow> map_of d' n = map_of d n)
   \<and> (sample_vars names e d = Inl (x, d') \<longrightarrow> map_of d' n = map_of d n)"
  by (induction names e d rule: sample_vars.induct)
     (auto simp: map_of_dict_set split: option.splits)

lemma sample_vars_returns:
  "set names \<subseteq> fst ` set d \<Longrightarrow> \<forall>n \<in> set names. e n \<noteq> None \<Longrightarrow> \<exists>d'. sample_vars names e d = Inr d'"
proof (induction names e d rule: sample_vars.induct)
  case (1 e d)
  then show ?case by simp
next
  case (2 name names e d)
  from "2.prems" obtain vs v where vs: "map_of d name = Some vs" and v: "e name = Some v"
    by (metis (no_types, lifting) domD dom_map_of_conv_image_fst list.set_intros(1) not_Some_eq subsetD)
  have "set names \<subseteq> fst ` set (dict_set d name (vs @ [v]))"
    using "2.prems"(1) by (auto simp: keys_dict_set)
  with 2 vs v show ?case by simp
qed

lemma sample_vars_grows:
  "sample_vars names e d = Inr d' \<Longrightarrow> map_of d n = Some vs \<Longrightarrow>
     \<exists>vs'. map_of d' n = Some vs' \<and> length vs \<le> length vs'"
proof (induction names e d arbitrary: vs rule: sample_vars.induct)
  case (1 e d)
  then show ?case by simp
next
  case (2 name names e d)
  from "2.prems"(1) obtain ws v where ws: "map_of d name = Some ws" and v: "e name = Some v"
    and rest: "sample_vars names e (dict_set d name (ws @ [v])) = Inr d'"
    by (auto split: option.splits)
  show ?case
  proof (cases "n = name")
    case True
    then have "map_of (dict_set d name (ws @ [v])) n = Some (ws @ [v])"
      by (simp add: map_of_dict_set)
    from "2.IH" [OF ws v rest this] True ws "2.prems"(2) show ?thesis by auto
  next
    case False
    then have "map_of (dict_set d name (ws @ [v])) n = Some vs"
      using "2.prems"(2) by (simp add: map_of_dict_set)
    from "2.IH" [OF ws v rest this] show ?thesis .
  qed
qed

lemma sample_vars_nonempty:
  "sample_vars names e d = Inr d' \<Longrightarrow> n \<in> set names \<Longrightarrow>
     \<exists>vs. map_of d' n = Some vs \<and> vs \<noteq> []"
proof (induction names e d rule: sample_vars.induct)
  case (1 e d)
  then show ?case by simp
next
  case (2 name names e d)
  from "2.prems"(1) obtain ws v where ws: "map_of d name = Some ws" and v: "e name = Some v"
    and rest: "sample_vars names e (dict_set d name (ws @ [v])) = Inr d'"
    by (auto split: option.splits)
  show ?case
  proof (cases "n = name")
    case True
    then have "map_of (dict_set d name (ws @ [v])) n = Some (ws @ [v])"
      by (simp add: map_of_dict_set)
    from sample_vars_grows [OF rest this] show ?thesis by auto
  next
    case False
    with "2.prems"(2) have "n \<in> set names" by simp
    from "2.IH" [OF ws v rest this] show ?thesis .
  qed
qed

lemma sample_vars_appends:
  "sample_vars names e d = Inr d' \<Longrightarrow> distinct names \<Longrightarrow> n \<in> set names \<Longrightarrow>
     \<exists>vs v. map_of d n = Some vs \<and> e n = Some v \<and> map_of d' n = Some (vs @ [v])"
proof (induction names e d rule: sample_vars.induct)
  case (1 e d)
  then show ?case by simp
next
  case (2 name names e d)
  from "2.prems"(1) obtain ws v where ws: "map_of d name = Some ws" and v: "e name = Some v"
    and rest: "sample_vars names e (dict_set d name (ws @ [v])) = Inr d'"
    by (auto split: option.splits)
  show ?case
  proof (cases "n = name")
    case True
    then have "n \<notin> set names" using "2.prems"(2) by simp
    from sample_vars_untouched [OF this, of e "dict_set d name (ws @ [v])" d'] rest
    show ?thesis using True ws v by (simp add: map_of_dict_set)
  next
    case False
    with "2.prems" have "n \<in> set names" "distinct names" by simp_all
    from "2.IH" [OF ws v rest this(2,1)] False show ?thesis
      by (simp add: map_of_dict_set)
  qed
qed

lemma sample_vars_append:
  "sample_vars (pre @ rest) e d =
     (case sample_vars pre e d of Inl x \<Rightarrow> Inl x | Inr d1 \<Rightarrow> sample_vars rest e d1)"
  by (induction pre e d rule: sample_vars.induct) (auto split: option.splits)

subsection \<open>Drawing and axis limits\<close>

lemma draw_lines_returns:
  "fst ` set pd \<subseteq> fst ` set fm \<Longrightarrow> \<exists>plt'. draw_lines fm pt pd plt = Inr plt'"
proof (induction fm pt pd plt rule: draw_lines.induct)
  case (1 fm pt plt)
  then show ?case by simp
next
  case (2 fm pt name vs rest plt)
  from "2.prems" obtain tok where tok: "map_of fm name = Some tok"
    by (metis (no_types, lifting) domD dom_map_of_conv_image_fst fst_conv image_eqI list.set_intros(1) subsetD)
  from "2.prems" have "fst ` set rest \<subseteq> fst ` set fm" by auto
  from "2.IH" [OF tok this] tok show ?case by simp
qed

lemma draw_lines_frame:
  "(draw_lines fm pt pd plt = Inr plt' \<longrightarrow> plt' = plt\<lparr>drawn := drawn plt'\<rparr>)
 \<and> (draw_lines fm pt pd plt = Inl (x, plt') \<longrightarrow> plt' = plt\<lparr>drawn := drawn plt'\<rparr>)"
  by (induction fm pt pd plt rule: draw_lines.induct) (auto split: option.splits)

lemma draw_lines_drawn:
  "draw_lines fm pt pd plt = Inr plt' \<Longrightarrow>
     map (\<lambda>(x, y, tok, label). (x, y, label)) (drawn plt')
       = map (\<lambda>(x, y, tok, label). (x, y, label)) (drawn plt) @ map (\<lambda>(name, vs). (pt, vs, name)) pd"
  by (induction fm pt pd plt rule: draw_lines.induct) (auto split: option.splits)

lemma fold_min_in: "fold (\<lambda>y m. if lt y m then y else m) xs x \<in> set (x # xs)"
  by (induction xs arbitrary: x) auto

lemma fold_max_in: "fold (\<lambda>y m. if lt m y then y else m) xs x \<in> set (x # xs)"
  by (induction xs arbitrary: x) auto

lemma py_min_in: "xs \<noteq> [] \<Longrightarrow> \<exists>m \<in> set xs. py_min lt xs = Inr m"
  using fold_min_in [of lt "tl xs" "hd xs"] by (cases xs) auto

lemma py_max_in: "xs \<noteq> [] \<Longrightarrow> \<exists>m \<in> set xs. py_max lt xs = Inr m"
  using fold_max_in [of lt "tl xs" "hd xs"] by (cases xs) auto

lemma y_limits_returns:
  assumes "data self \<noteq> []" and "\<forall>vs \<in> snd ` set (data self). vs \<noteq> []"
  shows "\<exists>l. y_limits self auto = Inr l"
proof (cases "ylim self")
  case None
  then show ?thesis by (simp add: y_limits_def)
next
  case (Some yl)
  obtain y0 y1 where yl: "yl = (y0, y1)" by (cases yl)
  from assms(1) have ne: "map snd (data self) \<noteq> []" by simp
  from py_min_in [OF ne, of list_less] obtain lowest
    where lowest: "lowest \<in> set (map snd (data self))" "py_min list_less (map snd (data self)) = Inr lowest"
    by blast
  from py_max_in [OF ne, of list_less] obtain highest
    where highest: "highest \<in> set (map snd (data self))" "py_max list_less (map snd (data self)) = Inr highest"
    by blast
  from lowest(1) highest(1) assms(2) have "lowest \<noteq> []" "highest \<noteq> []" by auto
  then obtain lo hi where "py_min (<) lowest = Inr lo" "py_max (<) highest = Inr hi"
    using py_min_in [of lowest "(<)"] py_max_in [of highest "(<)"] by blast
  with Some yl lowest(2) highest(2) show ?thesis
    by (simp add: y_limits_def Let_def)
qed

lemma x_limits_value:
  assumes "time self \<noteq> []"
  shows "x_limits self =
     Inr (case xlim self of None \<Rightarrow> None
          | Some (x0, x1) \<Rightarrow> Some (min x0 (real_of_int (Min (set (time self)))),
                                   max x1 (real_of_int (Max (set (time self))))))"
proof -
  obtain t ts where ts: "time self = t # ts"
    using assms by (cases "time self") auto
  show ?thesis
    by (simp add: x_limits_def ts py_min_Min py_max_Max del: py_min.simps py_max.simps split: option.splits)
qed

lemma set_axes_limits_Inr:
  assumes "set_axes_limits self auto axes = Inr axes'"
  shows "\<exists>yl xl. y_limits self auto = Inr yl \<and> x_limits self = Inr xl
     \<and> axes' = axes\<lparr>axis_xlim := (case xl of None \<Rightarrow> axis_xlim axes | Some l \<Rightarrow> Some l),
                     axis_ylim := (case yl of None \<Rightarrow> axis_ylim axes | Some l \<Rightarrow> Some l)\<rparr>"
  using assms by (auto simp: set_axes_limits_def Let_def split: sum.splits option.splits)

lemma set_axes_limits_Inl:
  assumes "set_axes_limits self auto axes = Inl (e, axes')"
  shows "(y_limits self auto = Inl e \<or> x_limits self = Inl e)
     \<and> saved axes' = saved axes \<and> drawn axes' = drawn axes"
  using assms by (auto simp: set_axes_limits_def Let_def split: sum.splits option.splits)

lemma set_axes_limits_returns:
  assumes "y_limits self auto = Inr yl" and "x_limits self = Inr xl"
  shows "\<exists>axes'. set_axes_limits self auto axes = Inr axes'"
  using assms by (simp add: set_axes_limits_def Let_def)

subsection \<open>One redraw\<close>

lemma select_window_keys: "map fst (snd (select_window self)) = map fst (data self)"
  by (simp add: select_window_def split_beta)

lemma plot_Inr:
  assumes "plot t (self, plt) = Inr (self', plt')"
  shows "\<exists>d yl xl.
      sample_vars (var_names self) (env t) (data self) = Inr d
    \<and> self' = self\<lparr>time := time self @ [now t], data := d\<rparr>
    \<and> y_limits self' (get_ylim t) = Inr yl
    \<and> x_limits self' = Inr xl
    \<and> axis_ylim plt' = (case yl of None \<Rightarrow> axis_ylim plt | Some l \<Rightarrow> Some l)
    \<and> axis_xlim plt' = (case xl of None \<Rightarrow> axis_xlim plt | Some l \<Rightarrow> Some l)
    \<and> saved plt' = saved plt
    \<and> map (\<lambda>(x, y, tok, label). (x, y, label)) (drawn plt')
         = map (\<lambda>(x, y, tok, label). (x, y, label)) (drawn plt)
           @ map (\<lambda>(name, vs). (fst (select_window self'), vs, name)) (snd (select_window self'))"
proof -
  let ?s1 = "self\<lparr>time := time self @ [now t]\<rparr>"
  from assms obtain d where d: "sample_vars (var_names self) (env t) (data self) = Inr d"
    by (auto simp: plot_def Let_def split: sum.splits prod.splits)
  let ?s2 = "self\<lparr>time := time self @ [now t], data := d\<rparr>"
  obtain pt pd where win: "select_window ?s2 = (pt, pd)" by (cases "select_window ?s2")
  from assms d win obtain plt1 where dl: "draw_lines (fmt self) pt pd plt = Inr plt1"
    by (auto simp: plot_def Let_def split: sum.splits prod.splits)
  let ?plt2 = "if truthy (legend self) then plt1\<lparr>legend_loc := legend self\<rparr> else plt1"
  let ?plt3 = "?plt2\<lparr>axis_xlabel := xlabel self, axis_ylabel := ylabel self\<rparr>"
  from assms d win dl have sal: "set_axes_limits ?s2 (get_ylim t) ?plt3 = Inr plt'" and s': "self' = ?s2"
    by (auto simp: plot_def Let_def split: sum.splits prod.splits if_splits)
  from set_axes_limits_Inr [OF sal] obtain yl xl where
    lim: "y_limits ?s2 (get_ylim t) = Inr yl" "x_limits ?s2 = Inr xl"
    "plt' = ?plt3\<lparr>axis_xlim := (case xl of None \<Rightarrow> axis_xlim ?plt3 | Some l \<Rightarrow> Some l),
                   axis_ylim := (case yl of None \<Rightarrow> axis_ylim ?plt3 | Some l \<Rightarrow> Some l)\<rparr>"
    by blast
  from draw_lines_frame [of "fmt self" pt pd plt plt1] dl
  have fr: "plt1 = plt\<lparr>drawn := drawn plt1\<rparr>" by simp
  have a: "axis_ylim plt1 = axis_ylim plt" "axis_xlim plt1 = axis_xlim plt" "saved plt1 = saved plt"
    by (subst fr, simp)+
  have "axis_ylim plt' = (case yl of None \<Rightarrow> axis_ylim plt | Some l \<Rightarrow> Some l)"
    by (subst lim(3)) (simp add: a split: option.splits)
  moreover have "axis_xlim plt' = (case xl of None \<Rightarrow> axis_xlim plt | Some l \<Rightarrow> Some l)"
    by (subst lim(3)) (simp add: a split: option.splits)
  moreover have "saved plt' = saved plt"
    by (subst lim(3)) (simp add: a)
  moreover have "drawn plt' = drawn plt1"
    by (subst lim(3)) simp
  ultimately show ?thesis
    using d s' lim(1,2) draw_lines_drawn [OF dl] win by simp
qed

lemma draw_lines_Inl: "draw_lines fm pt pd plt = Inl (x, plt') \<Longrightarrow> \<exists>k. x = KeyError k"
  by (induction fm pt pd plt rule: draw_lines.induct) (auto split: option.splits)

lemma py_min_Inl: "py_min lt xs = Inl e \<Longrightarrow> e = ValueError"
  by (cases xs) auto

lemma py_max_Inl: "py_max lt xs = Inl e \<Longrightarrow> e = ValueError"
  by (cases xs) auto

lemma y_limits_Inl: "y_limits self auto = Inl e \<Longrightarrow> e = ValueError"
  by (auto simp: y_limits_def Let_def split: option.splits sum.splits dest: py_min_Inl py_max_Inl)

lemma x_limits_Inl: "x_limits self = Inl e \<Longrightarrow> e = ValueError"
  by (auto simp: x_limits_def Let_def split: option.splits sum.splits dest: py_min_Inl py_max_Inl)

lemma plot_Inl:
  assumes "plot t (self, plt) = Inl (e, (self', plt'))"
  shows "self' = self\<lparr>time := time self @ [now t], data := data self'\<rparr>
    \<and> saved plt' = saved plt
    \<and> (sample_vars (var_names self) (env t) (data self) = Inl (e, data self')
       \<or> sample_vars (var_names self) (env t) (data self) = Inr (data self')
         \<and> (e = ValueError \<or> (\<exists>k. e = KeyError k)))"
proof (cases "sample_vars (var_names self) (env t) (data self)")
  case (Inl x)
  with assms show ?thesis
    by (auto simp: plot_def Let_def split: prod.splits)
next
  case (Inr d)
  let ?s2 = "self\<lparr>time := time self @ [now t], data := d\<rparr>"
  obtain pt pd where win: "select_window ?s2 = (pt, pd)" by (cases "select_window ?s2")
  show ?thesis
  proof (cases "draw_lines (fmt self) pt pd plt")
    case (Inl y)
    obtain x plt1 where y: "y = (x, plt1)" by (cases y)
    from draw_lines_frame [of "fmt self" pt pd plt plt1 x] Inl y
    have "plt1 = plt\<lparr>drawn := drawn plt1\<rparr>" by simp
    then have "saved plt1 = saved plt" by (metis backend.select_convs(9) backend.surjective backend.update_convs(3))
    with assms Inr win Inl y draw_lines_Inl [of "fmt self" pt pd plt x plt1] show ?thesis
      by (auto simp: plot_def Let_def)
  next
    case (Inr plt1)
    from draw_lines_frame [of "fmt self" pt pd plt plt1] Inr
    have "plt1 = plt\<lparr>drawn := drawn plt1\<rparr>" by simp
    then have sv: "saved plt1 = saved plt" by (metis backend.select_convs(9) backend.surjective backend.update_convs(3))
    let ?plt2 = "if truthy (legend self) then plt1\<lparr>legend_loc := legend self\<rparr> else plt1"
    let ?plt3 = "?plt2\<lparr>axis_xlabel := xlabel self, axis_ylabel := ylabel self\<rparr>"
    from assms \<open>sample_vars (var_names self) (env t) (data self) = Inr d\<close> win Inr
    have sal: "set_axes_limits ?s2 (get_ylim t) ?plt3 = Inl (e, plt')" and s': "self' = ?s2"
      by (auto simp: plot_def Let_def split: sum.splits prod.splits if_splits)
    from set_axes_limits_Inl [OF sal] y_limits_Inl x_limits_Inl
    have "e = ValueError" "saved plt' = saved ?plt3" by blast+
    with sv s' \<open>sample_vars (var_names self) (env t) (data self) = Inr d\<close> show ?thesis
      by simp
  qed
qed

lemma sample_vars_all_nonempty:
  assumes "sample_vars names e d = Inr d'" and "distinct (map fst d)" and "fst ` set d = set names"
  shows "\<forall>vs \<in> snd ` set d'. vs \<noteq> []"
proof
  fix vs assume "vs \<in> snd ` set d'"
  then obtain n where n: "(n, vs) \<in> set d'" by auto
  from sample_vars_keys [of names e d d'] assms(1) have keys: "map fst d' = map fst d" by simp
  with assms(2) have "distinct (map fst d')" by simp
  with n have m: "map_of d' n = Some vs" by simp
  from n have "n \<in> fst ` set d'" by (metis fst_conv image_eqI)
  then have "n \<in> set names" using keys assms(3) by (metis set_map)
  from sample_vars_nonempty [OF assms(1) this] m show "vs \<noteq> []" by simp
qed

lemma plot_returns:
  assumes "wf self" and "readable self t" and "ylim self \<noteq> None \<longrightarrow> var_names self \<noteq> []"
  shows "\<exists>w'. plot t (self, plt) = Inr w'"
proof -
  from assms(1) have dk: "distinct (map fst (data self))" and keys: "fst ` set (data self) = set (var_names self)"
    and fk: "set (var_names self) \<subseteq> fst ` set (fmt self)"
    by (simp_all add: wf_def)
  from sample_vars_returns [of "var_names self" "data self" "env t"] keys assms(2)
  obtain d where d: "sample_vars (var_names self) (env t) (data self) = Inr d"
    by (auto simp: readable_def)
  from sample_vars_keys [of "var_names self" "env t" "data self" d] d
  have dkeys: "map fst d = map fst (data self)" by simp
  let ?s2 = "self\<lparr>time := time self @ [now t], data := d\<rparr>"
  obtain pt pd where win: "select_window ?s2 = (pt, pd)" by (cases "select_window ?s2")
  from select_window_keys [of ?s2] win dkeys have "map fst pd = map fst (data self)" by simp
  then have "fst ` set pd = fst ` set (data self)" by (metis set_map)
  with keys fk have "fst ` set pd \<subseteq> fst ` set (fmt self)" by simp
  from draw_lines_returns [OF this] obtain plt1 where dl: "draw_lines (fmt self) pt pd plt = Inr plt1"
    by blast
  have "\<exists>yl. y_limits ?s2 (get_ylim t) = Inr yl"
  proof (cases "ylim self")
    case None
    then show ?thesis by (simp add: y_limits_def)
  next
    case (Some a)
    with assms(3) keys have "data self \<noteq> []" by auto
    with dkeys have "data ?s2 \<noteq> []" by auto
    moreover from sample_vars_all_nonempty [OF d dk keys] have "\<forall>vs \<in> snd ` set (data ?s2). vs \<noteq> []"
      by simp
    ultimately show ?thesis by (rule y_limits_returns)
  qed
  then obtain yl where yl: "y_limits ?s2 (get_ylim t) = Inr yl" ..
  have "\<exists>xl. x_limits ?s2 = Inr xl"
    using x_limits_value [of ?s2] by simp
  then obtain xl where xl: "x_limits ?s2 = Inr xl" ..
  let ?plt2 = "if truthy (legend self) then plt1\<lparr>legend_loc := legend self\<rparr> else plt1"
  let ?plt3 = "?plt2\<lparr>axis_xlabel := xlabel self, axis_ylabel := ylabel self\<rparr>"
  from set_axes_limits_returns [OF yl xl, of ?plt3] obtain plt4
    where "set_axes_limits ?s2 (get_ylim t) ?plt3 = Inr plt4" ..
  with d win dl show ?thesis
    by (cases "truthy (legend self)") (simp_all add: plot_def Let_def)
qed

subsection \<open>Calls, construction and what they keep\<close>

lemma update_Inr:
  assumes "update t (self, plt) = Inr (self', plt')"
  shows "fig self \<noteq> None \<and> get_fignums t \<noteq> []
    \<and> (\<exists>plt1. plot t (self, clf plt) = Inr (self', plt1)
          \<and> (self', plt') = (if truthy (output_dir self') then save (now t) (self', plt1) else (self', plt1)))"
  using assms
  by (auto simp: update_def save_def Let_def split: option.splits sum.splits if_splits prod.splits)

lemma update_Inl:
  assumes "update t (self, plt) = Inl (e, (self', plt'))"
  shows "fig self = None \<and> e = AttributeError ''number'' \<and> self' = self \<and> plt' = plt
       \<or> fig self \<noteq> None \<and> plot t (self, clf plt) = Inl (e, (self', plt'))
       \<or> fig self \<noteq> None \<and> e = SystemExit \<and> get_fignums t = [] \<and> plot t (self, clf plt) = Inr (self', plt')"
  using assms
  by (auto simp: update_def Let_def split: option.splits sum.splits if_splits prod.splits)

lemma update_returns:
  assumes "wf self" and "readable self t" and "ylim self \<noteq> None \<longrightarrow> var_names self \<noteq> []"
    and "fig self \<noteq> None" and "get_fignums t \<noteq> []"
  shows "\<exists>w'. update t (self, plt) = Inr w'"
proof -
  from plot_returns [OF assms(1-3), of "clf plt"] obtain w' where "plot t (self, clf plt) = Inr w'" ..
  with assms(4,5) show ?thesis
    by (cases w') (auto simp: update_def)
qed

lemma same_config_refl: "same_config p p"
  by (simp add: same_config_def)

lemma same_config_trans: "same_config p q \<Longrightarrow> same_config q r \<Longrightarrow> same_config p r"
  by (simp add: same_config_def)

lemma same_config_wf: "same_config p q \<Longrightarrow> wf p \<Longrightarrow> wf q"
  by (simp add: same_config_def wf_def del: set_map add: set_map [symmetric])

lemma plot_same_config: "same_config self (fst (after (plot t (self, plt))))"
proof (cases "plot t (self, plt)")
  case (Inl x)
  obtain e self' plt' where x: "x = (e, (self', plt'))" by (cases x) auto
  define d where "d = data self'"
  from plot_Inl [of t self plt e self' plt'] Inl x
  have s: "self' = self\<lparr>time := time self @ [now t], data := d\<rparr>"
    and d: "sample_vars (var_names self) (env t) (data self) = Inl (e, d)
       \<or> sample_vars (var_names self) (env t) (data self) = Inr d"
    unfolding d_def by auto
  from d sample_vars_keys [of "var_names self" "env t" "data self" d e]
  have "map fst d = map fst (data self)" by auto
  with Inl x s show ?thesis
    by (simp add: same_config_def)
next
  case (Inr w')
  obtain self' plt' where w': "w' = (self', plt')" by (cases w')
  from plot_Inr [of t self plt self' plt'] Inr w' obtain d
    where d: "sample_vars (var_names self) (env t) (data self) = Inr d"
      and s: "self' = self\<lparr>time := time self @ [now t], data := d\<rparr>"
    by auto
  from d sample_vars_keys [of "var_names self" "env t" "data self" d]
  have "map fst d = map fst (data self)" by auto
  with Inr w' s show ?thesis
    by (simp add: same_config_def)
qed

lemma update_same_config: "same_config self (fst (after (update t (self, plt))))"
proof (cases "update t (self, plt)")
  case (Inl x)
  obtain e self' plt' where x: "x = (e, (self', plt'))" by (cases x) auto
  from update_Inl [of t self plt e self' plt'] Inl x
  consider "self' = self" | "plot t (self, clf plt) = Inl (e, (self', plt'))"
    | "plot t (self, clf plt) = Inr (self', plt')"
    by auto
  then have "same_config self self'"
  proof cases
    case 1
    then show ?thesis by (simp add: same_config_refl)
  next
    case 2
    with plot_same_config [of self t "clf plt"] show ?thesis by simp
  next
    case 3
    with plot_same_config [of self t "clf plt"] show ?thesis by simp
  qed
  with Inl x show ?thesis by simp
next
  case (Inr w')
  obtain self' plt' where w': "w' = (self', plt')" by (cases w')
  from update_Inr [of t self plt self' plt'] Inr w' obtain plt1
    where "plot t (self, clf plt) = Inr (self', plt1)" by auto
  with plot_same_config [of self t "clf plt"] Inr w' show ?thesis by simp
qed

lemma prepare_same_config: "same_config (fst w) (fst (prepare w))"
  by (cases w) (simp add: prepare_def same_config_def Let_def)

lemma do_call_same_config: "same_config (fst w) (fst (after (do_call c w)))"
proof (cases c)
  case (Start t)
  obtain self plt where p: "prepare w = (self, plt)" by (cases "prepare w")
  from prepare_same_config [of w] p have "same_config (fst w) self" by simp
  from same_config_trans [OF this update_same_config [of self t plt]] Start p
  show ?thesis by (simp add: start_def)
next
  case (Step t)
  then show ?thesis
    using update_same_config [of "fst w" t "snd w"] by (simp add: step_def)
qed

lemma run_same_config: "same_config (fst w) (fst (after (run cs w)))"
proof (induction cs arbitrary: w)
  case Nil
  then show ?case by (simp add: same_config_refl)
next
  case (Cons c cs)
  show ?case
  proof (cases "do_call c w")
    case (Inl x)
    with do_call_same_config [of w c] show ?thesis by simp
  next
    case (Inr w')
    from do_call_same_config [of w c] Inr have "same_config (fst w) (fst w')" by simp
    from same_config_trans [OF this Cons.IH [of w']] Inr show ?thesis by simp
  qed
qed

lemma init_Inr:
  assumes "init var f sc ti xl yl xlm ylm lg pa od = Inr p"
  shows "var_names p = as_list var \<and> prepare_format_option (as_list var) f = Inr (fmt p)
    \<and> scrolling p = sc \<and> xlim p = xlm \<and> ylim p = ylm \<and> pause p = pa \<and> output_dir p = od
    \<and> fig p = None \<and> axes_margin p = 1 / 100 \<and> time p = []
    \<and> data p = dict_empty_lists (as_list var)"
  using assms by (auto simp: init_def Let_def split: sum.splits)

lemma prepare_format_option_keys:
  assumes "prepare_format_option names f = Inr fm"
  shows "fst ` set fm = set names"
proof -
  let ?f0 = "as_list f"
  let ?f1 = "if length ?f0 \<noteq> length names then concat (replicate (length names) ?f0) else ?f0"
  from assms have ok: "length ?f0 = 1 \<or> length ?f0 = length names" and fm: "fm = dict_zip names ?f1"
    by (auto simp: prepare_format_option_def Let_def split: if_splits)
  have "length ?f1 = length names"
  proof (cases "length ?f0 = length names")
    case True
    then show ?thesis by simp
  next
    case False
    with ok obtain tok where "?f0 = [tok]" by (cases ?f0) auto
    with False show ?thesis by simp
  qed
  from keys_dict_zip [OF this] fm show ?thesis by simp
qed

lemma wf_init:
  assumes "init var f sc ti xl yl xlm ylm lg pa od = Inr p"
  shows "wf p"
proof -
  from init_Inr [OF assms] have v: "var_names p = as_list var"
    and f: "prepare_format_option (as_list var) f = Inr (fmt p)"
    and d: "data p = dict_empty_lists (as_list var)" by simp_all
  from prepare_format_option_keys [OF f] v d dict_empty_lists_props(1,2) [of "as_list var", where ?'v = real]
  show ?thesis by (simp add: wf_def)
qed

lemma wf_run: "wf (fst w) \<Longrightarrow> wf (fst (after (run cs w)))"
  using same_config_wf [OF run_same_config] .

subsection \<open>One call\<close>

lemma save_frame:
  "save n (self, plt) = (self, plt\<lparr>saved := saved plt @ (case output_dir self of None \<Rightarrow> [] | Some dir \<Rightarrow> [os_path_join dir (format_05d n @ ''.png'')])\<rparr>)"
  by (simp add: save_def Let_def split: option.splits)

lemma sample_vars_Inl:
  "sample_vars names e d = Inl (x, d') \<Longrightarrow>
     (\<exists>n. x = KeyError n) \<or> (\<exists>n \<in> set names. x = AttributeError n \<and> e n = None)"
  by (induction names e d rule: sample_vars.induct) (auto split: option.splits)

lemma plot_no_exit: "plot t (self, plt) \<noteq> Inl (SystemExit, w')"
proof
  assume a: "plot t (self, plt) = Inl (SystemExit, w')"
  obtain self' plt' where "w' = (self', plt')" by (cases w')
  with a plot_Inl [of t self plt SystemExit self' plt']
    sample_vars_Inl [of "var_names self" "env t" "data self" SystemExit "data self'"]
  show False by auto
qed

lemma update_done:
  assumes "update t (self, plt) = Inr (self', plt') \<or> update t (self, plt) = Inl (SystemExit, (self', plt'))"
  shows "\<exists>plt1. plot t (self, clf plt) = Inr (self', plt1)
     \<and> axis_xlim plt' = axis_xlim plt1 \<and> axis_ylim plt' = axis_ylim plt1 \<and> drawn plt' = drawn plt1"
proof -
  from assms consider (ok) "update t (self, plt) = Inr (self', plt')"
    | (exit) "update t (self, plt) = Inl (SystemExit, (self', plt'))" by blast
  then show ?thesis
  proof cases
    case ok
    from update_Inr [OF ok] obtain plt1 where p: "plot t (self, clf plt) = Inr (self', plt1)"
      and s: "(self', plt') = (if truthy (output_dir self') then save (now t) (self', plt1) else (self', plt1))"
      by blast
    from s have "axis_xlim plt' = axis_xlim plt1 \<and> axis_ylim plt' = axis_ylim plt1 \<and> drawn plt' = drawn plt1"
      by (auto simp: save_frame split: if_splits)
    with p show ?thesis by blast
  next
    case exit
    from update_Inl [OF exit] plot_no_exit [of t self "clf plt" "(self', plt')"]
    have "plot t (self, clf plt) = Inr (self', plt')" by auto
    then show ?thesis by blast
  qed
qed

lemma do_call_update:
  "do_call c (self, plt) =
     update (tick_of c)
       (case c of Start t \<Rightarrow> (self\<lparr>fig := Some (Suc (fig_count plt))\<rparr>,
                               plt\<lparr>fig_count := Suc (fig_count plt), window_title := title self\<rparr>)
        | Step t \<Rightarrow> (self, plt))"
  by (cases c) (simp_all add: start_def step_def prepare_def Let_def)

lemma do_call_done:
  assumes "do_call c (self, plt) = Inr (self', plt') \<or> do_call c (self, plt) = Inl (SystemExit, (self', plt'))"
  shows "\<exists>f plt0 plt1. plot (tick_of c) (self\<lparr>fig := f\<rparr>, clf plt0) = Inr (self', plt1)
     \<and> saved plt0 = saved plt
     \<and> axis_xlim plt' = axis_xlim plt1 \<and> axis_ylim plt' = axis_ylim plt1 \<and> drawn plt' = drawn plt1"
proof (cases c)
  case (Start t)
  let ?s = "self\<lparr>fig := Some (Suc (fig_count plt))\<rparr>"
  let ?b = "plt\<lparr>fig_count := Suc (fig_count plt), window_title := title self\<rparr>"
  from assms Start have "update t (?s, ?b) = Inr (self', plt') \<or> update t (?s, ?b) = Inl (SystemExit, (self', plt'))"
    by (simp add: do_call_update)
  from update_done [OF this] Start have "\<exists>plt1. plot (tick_of c) (?s, clf ?b) = Inr (self', plt1)
     \<and> saved ?b = saved plt
     \<and> axis_xlim plt' = axis_xlim plt1 \<and> axis_ylim plt' = axis_ylim plt1 \<and> drawn plt' = drawn plt1"
    by simp
  then show ?thesis by blast
next
  case (Step t)
  from assms Step have "update t (self, plt) = Inr (self', plt') \<or> update t (self, plt) = Inl (SystemExit, (self', plt'))"
    by (simp add: do_call_update)
  from update_done [OF this] Step have "\<exists>plt1. plot (tick_of c) (self\<lparr>fig := fig self\<rparr>, clf plt) = Inr (self', plt1)
     \<and> saved plt = saved plt
     \<and> axis_xlim plt' = axis_xlim plt1 \<and> axis_ylim plt' = axis_ylim plt1 \<and> drawn plt' = drawn plt1"
    by simp
  then show ?thesis by blast
qed

lemma do_call_returns:
  assumes "wf self" and "readable self (tick_of c)" and "ylim self \<noteq> None \<longrightarrow> var_names self \<noteq> []"
    and "fig self \<noteq> None \<or> (\<exists>t. c = Start t)" and "get_fignums (tick_of c) \<noteq> []"
  shows "\<exists>w'. do_call c (self, plt) = Inr w'"
proof (cases c)
  case (Start t)
  let ?s = "self\<lparr>fig := Some (Suc (fig_count plt))\<rparr>"
  have "wf ?s" "readable ?s t" "ylim ?s \<noteq> None \<longrightarrow> var_names ?s \<noteq> []" "fig ?s \<noteq> None"
    using assms(1-3) Start by (simp_all add: wf_def readable_def)
  from update_returns [OF this] assms(5) Start show ?thesis
    by (simp add: do_call_update)
next
  case (Step t)
  with assms update_returns [of self t plt] show ?thesis
    by (simp add: do_call_update)
qed

lemmas call_defs = start_def step_def update_def prepare_def plot_def clf_def save_def
  select_window_def set_axes_limits_def y_limits_def x_limits_def slice_from_def
  os_path_join_def backend0_def Let_def

lemma init_temp:
  "init (Str ''temp'') (Str ''b'') sc None ''Time'' None xl yl None (1 / 1000) od
     = Inr (temp_plotter sc xl yl od)"
  by (simp add: init_def temp_plotter_def prepare_format_option_def dict_zip_def
      or_default_title_def prepare_default_title_def dict_empty_lists_def)

section \<open>The claims\<close>

subsection \<open>The display window\<close>

text \<open>
  Claim C2. With \<open>scrolling = N > 0\<close> the window that \<open>plot\<close> selects, for the times and
  for the values of every variable, is the last \<open>min(N, L)\<close> elements of the accumulated
  series of length \<open>L\<close>, in their order; with \<open>scrolling = 0\<close> it is the whole series.
  The lines on the figure after a call are these windows, one per variable.
\<close>

theorem window_selection:
  "(0 < scrolling self \<longrightarrow>
      select_window self =
        (last_elems (nat (scrolling self)) (time self),
         map (\<lambda>(name, vs). (name, last_elems (nat (scrolling self)) vs)) (data self))
    \<and> length (fst (select_window self)) = min (nat (scrolling self)) (length (time self))
    \<and> (\<forall>vs. length (last_elems (nat (scrolling self)) vs) = min (nat (scrolling self)) (length vs)))
 \<and> (scrolling self = 0 \<longrightarrow> select_window self = (time self, data self))
 \<and> (do_call c (self0, plt) = Inr (self, plt') \<longrightarrow>
      map (\<lambda>(x, y, tok, label). (x, y, label)) (drawn plt')
        = map (\<lambda>(name, vs). (fst (select_window self), vs, name)) (snd (select_window self)))"
proof -
  have "map (\<lambda>(x, y, tok, label). (x, y, label)) (drawn plt')
        = map (\<lambda>(name, vs). (fst (select_window self), vs, name)) (snd (select_window self))"
    if r: "do_call c (self0, plt) = Inr (self, plt')"
  proof -
    from do_call_done [OF disjI1 [OF r]] obtain f plt0 plt1
      where p: "plot (tick_of c) (self0\<lparr>fig := f\<rparr>, clf plt0) = Inr (self, plt1)"
        and d: "drawn plt' = drawn plt1" by blast
    from plot_Inr [OF p] d show ?thesis by (auto simp: clf_def)
  qed
  then show ?thesis
    by (simp add: select_window_def slice_from_neg length_last_elems)
qed

theorem window_selection_witness:
  "do_call (Step (temp_tick 3 15)) temp_run3 = Inr temp_run4
 \<and> 0 < scrolling (fst temp_run4)
 \<and> time (fst temp_run4) = [0, 1, 2, 3] \<and> data (fst temp_run4) = [(''temp'', [10, 12, 9, 15])]
 \<and> select_window (fst temp_run4) = ([1, 2, 3], [(''temp'', [12, 9, 15])])
 \<and> map (\<lambda>(x, y, tok, label). (x, y, label)) (drawn (snd temp_run4)) = [([1, 2, 3], [12, 9, 15], ''temp'')]
 \<and> scrolling (fst temp_run2) = 0
 \<and> select_window (fst temp_run2) = ([0, 1], [(''temp'', [10, 12])])"
proof -
  have w: "temp_run3 = (temp_plotter 3 None None None\<lparr>fig := Some 1, time := [0, 1, 2], data := [(''temp'', [10, 12, 9])]\<rparr>,
                snd temp_run3)"
    unfolding temp_run3_def by (simp add: call_defs temp_tick_def temp_plotter_def)
  have r: "do_call (Step (temp_tick 3 15)) (fst temp_run3, snd temp_run3) = Inr (fst temp_run4, snd temp_run4)"
    unfolding temp_run4_def by (subst (1 2 3 4) w) (simp add: call_defs temp_tick_def temp_plotter_def)
  then have r': "do_call (Step (temp_tick 3 15)) temp_run3 = Inr temp_run4"
    by simp
  have s: "fst temp_run4 = temp_plotter 3 None None None\<lparr>fig := Some 1, time := [0, 1, 2, 3], data := [(''temp'', [10, 12, 9, 15])]\<rparr>"
    unfolding temp_run4_def by (subst w) (simp add: call_defs temp_tick_def temp_plotter_def)
  have v: "fst temp_run2 = temp_plotter 0 None None None\<lparr>fig := Some 1, time := [0, 1], data := [(''temp'', [10, 12])]\<rparr>"
    unfolding temp_run2_def by (simp add: call_defs temp_tick_def temp_plotter_def)
  from window_selection [of "fst temp_run4" "Step (temp_tick 3 15)" "fst temp_run3" "snd temp_run3" "snd temp_run4"]
    window_selection [of "fst temp_run2" "Step (temp_tick 3 15)" "fst temp_run3" "snd temp_run3" "snd temp_run4"] r
  have "select_window (fst temp_run4) = ([1, 2, 3], [(''temp'', [12, 9, 15])])
     \<and> map (\<lambda>(x, y, tok, label). (x, y, label)) (drawn (snd temp_run4)) = [([1, 2, 3], [12, 9, 15], ''temp'')]
     \<and> select_window (fst temp_run2) = ([0, 1], [(''temp'', [10, 12])])"
    by (simp add: s v temp_plotter_def last_elems_def)
  moreover have "0 < scrolling (fst temp_run4)" "time (fst temp_run4) = [0, 1, 2, 3]"
    "data (fst temp_run4) = [(''temp'', [10, 12, 9, 15])]" "scrolling (fst temp_run2) = 0"
    by (simp_all add: s v temp_plotter_def)
  ultimately show ?thesis using r' by blast
qed

subsection \<open>Construction: style tokens and pacing delay\<close>

lemma or_default_title_returns: "names \<noteq> [] \<Longrightarrow> \<exists>t. or_default_title x names = Inr t"
  by (cases names) (auto simp: or_default_title_def prepare_default_title_def split: option.splits)

lemma init_returns:
  assumes "as_list var \<noteq> []" and "prepare_format_option (as_list var) f = Inr fm"
  shows "\<exists>p. init var f sc ti xl yl xlm ylm lg pa od = Inr p \<and> fmt p = fm \<and> pause p = pa
           \<and> var_names p = as_list var"
proof -
  from or_default_title_returns [OF assms(1)] obtain t y
    where "or_default_title ti (as_list var) = Inr t" "or_default_title yl (as_list var) = Inr y"
    by blast
  with assms(2) show ?thesis
    by (simp add: init_def Let_def)
qed

lemma init_assertion:
  assumes "prepare_format_option (as_list var) f = Inl e"
  shows "init var f sc ti xl yl xlm ylm lg pa od = Inl e"
  using assms by (simp add: init_def Let_def)

lemma prepare_format_option_single:
  assumes "as_list f = [tok]"
  shows "prepare_format_option names f = Inr (dict_zip names (replicate (length names) tok))"
proof (cases "length names = 1")
  case True
  then have "replicate (length names) tok = [tok]" by simp
  with True assms show ?thesis
    by (simp add: prepare_format_option_def Let_def)
next
  case False
  with assms show ?thesis
    by (simp add: prepare_format_option_def Let_def)
qed

lemma prepare_format_option_list:
  "length (as_list f) = length names \<Longrightarrow> prepare_format_option names f = Inr (dict_zip names (as_list f))"
  by (simp add: prepare_format_option_def Let_def)

lemma prepare_format_option_mismatch:
  "length (as_list f) \<noteq> 1 \<Longrightarrow> length (as_list f) \<noteq> length names \<Longrightarrow>
     prepare_format_option names f = Inl AssertionError"
  by (simp add: prepare_format_option_def Let_def)

text \<open>
  Claim C4. Construction with one style token (given as a string) maps every tracked
  name to that token. Construction with a list of tokens as long as the list of names
  (distinct names) maps the names to the tokens pairwise in order. Construction with a
  list of tokens of any other length, not 1 and not the number of names, fails: the
  \<open>assert\<close> of \<open>_prepare_format_option\<close> raises. The name list is non-empty, as the
  construction contract has it (an empty one has no default title).
\<close>

theorem style_tokens:
  "(as_list var \<noteq> [] \<longrightarrow>
      (\<exists>p. init var (Str tok) sc ti xl yl xlm ylm lg pa od = Inr p
         \<and> var_names p = as_list var
         \<and> (\<forall>n \<in> set (as_list var). map_of (fmt p) n = Some tok)))
 \<and> (as_list var \<noteq> [] \<and> distinct (as_list var) \<and> length toks = length (as_list var) \<longrightarrow>
      (\<exists>p. init var (StrList toks) sc ti xl yl xlm ylm lg pa od = Inr p
         \<and> var_names p = as_list var
         \<and> (\<forall>i < length toks. map_of (fmt p) (as_list var ! i) = Some (toks ! i))))
 \<and> (length toks \<noteq> 1 \<and> length toks \<noteq> length (as_list var) \<longrightarrow>
      init var (StrList toks) sc ti xl yl xlm ylm lg pa od = Inl AssertionError)"
proof (intro conjI impI)
  assume ne: "as_list var \<noteq> []"
  have "prepare_format_option (as_list var) (Str tok)
          = Inr (dict_zip (as_list var) (replicate (length (as_list var)) tok))"
    by (rule prepare_format_option_single) simp
  from init_returns [OF ne this, of sc ti xl yl xlm ylm lg pa od]
  show "\<exists>p. init var (Str tok) sc ti xl yl xlm ylm lg pa od = Inr p
         \<and> var_names p = as_list var
         \<and> (\<forall>n \<in> set (as_list var). map_of (fmt p) n = Some tok)"
    by (auto simp: dict_zip_replicate)
next
  assume a: "as_list var \<noteq> [] \<and> distinct (as_list var) \<and> length toks = length (as_list var)"
  then have "prepare_format_option (as_list var) (StrList toks) = Inr (dict_zip (as_list var) toks)"
    using prepare_format_option_list [of "StrList toks" "as_list var"] by simp
  from init_returns [OF _ this, of sc ti xl yl xlm ylm lg pa od] a
  show "\<exists>p. init var (StrList toks) sc ti xl yl xlm ylm lg pa od = Inr p
         \<and> var_names p = as_list var
         \<and> (\<forall>i < length toks. map_of (fmt p) (as_list var ! i) = Some (toks ! i))"
    by (auto simp: dict_zip_nth)
next
  assume "length toks \<noteq> 1 \<and> length toks \<noteq> length (as_list var)"
  then have "prepare_format_option (as_list var) (StrList toks) = Inl AssertionError"
    using prepare_format_option_mismatch [of "StrList toks" "as_list var"] by simp
  then show "init var (StrList toks) sc ti xl yl xlm ylm lg pa od = Inl AssertionError"
    by (rule init_assertion)
qed

theorem style_tokens_witness:
  "as_list (StrList [''a'', ''b'']) \<noteq> [] \<and> distinct (as_list (StrList [''a'', ''b'']))
 \<and> length [''x'', ''y''] = length (as_list (StrList [''a'', ''b'']))
 \<and> length [''x'', ''y'', ''z''] \<noteq> 1 \<and> length [''x'', ''y'', ''z''] \<noteq> length (as_list (StrList [''a'', ''b'']))
 \<and> (\<exists>p. init (StrList [''a'', ''b'']) (Str ''x'') 0 None ''Time'' None None None None (1 / 1000) None = Inr p
        \<and> map_of (fmt p) ''a'' = Some ''x'' \<and> map_of (fmt p) ''b'' = Some ''x'')
 \<and> (\<exists>p. init (StrList [''a'', ''b'']) (StrList [''x'', ''y'']) 0 None ''Time'' None None None None (1 / 1000) None = Inr p
        \<and> map_of (fmt p) ''a'' = Some ''x'' \<and> map_of (fmt p) ''b'' = Some ''y'')
 \<and> init (StrList [''a'', ''b'']) (StrList [''x'', ''y'', ''z'']) 0 None ''Time'' None None None None (1 / 1000) None
      = Inl AssertionError"
proof -
  from style_tokens [of "StrList [''a'', ''b'']" "''x''" 0 None "''Time''" None None None None "1 / 1000" None "[''x'', ''y'']"]
  obtain p q where p: "init (StrList [''a'', ''b'']) (Str ''x'') 0 None ''Time'' None None None None (1 / 1000) None = Inr p"
    "\<forall>n \<in> set [''a'', ''b'']. map_of (fmt p) n = Some ''x''"
    and q: "init (StrList [''a'', ''b'']) (StrList [''x'', ''y'']) 0 None ''Time'' None None None None (1 / 1000) None = Inr q"
    "\<forall>i < length [''x'', ''y'']. map_of (fmt q) ([''a'', ''b''] ! i) = Some ([''x'', ''y''] ! i)"
    by auto
  from q(2) [rule_format, of 0] q(2) [rule_format, of 1]
  have "map_of (fmt q) ([''a'', ''b''] ! 0) = Some ([''x'', ''y''] ! 0)"
    "map_of (fmt q) ([''a'', ''b''] ! 1) = Some ([''x'', ''y''] ! 1)"
    by simp_all
  then have q': "map_of (fmt q) ''a'' = Some ''x''" "map_of (fmt q) ''b'' = Some ''y''"
    by simp_all
  from p(2) have p': "map_of (fmt p) ''a'' = Some ''x''" "map_of (fmt p) ''b'' = Some ''x''"
    by simp_all
  from style_tokens [of "StrList [''a'', ''b'']" "''x''" 0 None "''Time''" None None None None "1 / 1000" None "[''x'', ''y'', ''z'']"]
  have 3: "init (StrList [''a'', ''b'']) (StrList [''x'', ''y'', ''z'']) 0 None ''Time'' None None None None (1 / 1000) None
      = Inl AssertionError"
    by simp
  from p(1) p' q(1) q' 3 show ?thesis by simp
qed

text \<open>
  Claim C5 says that construction fails for every \<open>pause \<le> 0\<close>. \<open>__init__\<close> stores
  \<open>pause\<close> without looking at it: construction with \<open>pause = 0\<close> and with \<open>pause = -1\<close>
  succeeds.
\<close>

theorem pacing_delay_counterexample:
  "init (Str ''temp'') (Str ''b'') 0 None ''Time'' None None None None 0 None
     = Inr ((temp_plotter 0 None None None)\<lparr>pause := 0\<rparr>)
 \<and> init (Str ''temp'') (Str ''b'') 0 None ''Time'' None None None None (- 1) None
     = Inr ((temp_plotter 0 None None None)\<lparr>pause := - 1\<rparr>)"
  by (simp add: init_def temp_plotter_def prepare_format_option_def dict_zip_def
      or_default_title_def prepare_default_title_def dict_empty_lists_def)

text \<open>
  Claim C5 as amended. Whether construction succeeds does not depend on \<open>pause\<close>, and the
  plotter built with one value of \<open>pause\<close> differs from the one built with another in the
  field \<open>pause\<close> only. For every \<open>pause\<close>, positive or not, construction with a non-empty
  list of names and one style token, or as many tokens as names, succeeds and stores
  \<open>pause\<close> as given.
\<close>

theorem pacing_delay_unchecked:
  "init var f sc ti xl yl xlm ylm lg pa od
     = (case init var f sc ti xl yl xlm ylm lg pa' od of
          Inl e \<Rightarrow> Inl e
        | Inr p \<Rightarrow> Inr (p\<lparr>pause := pa\<rparr>))
 \<and> (as_list var \<noteq> [] \<and> (length (as_list f) = 1 \<or> length (as_list f) = length (as_list var)) \<longrightarrow>
      (\<exists>p. init var f sc ti xl yl xlm ylm lg pa od = Inr p \<and> pause p = pa))"
proof
  show "init var f sc ti xl yl xlm ylm lg pa od
     = (case init var f sc ti xl yl xlm ylm lg pa' od of
          Inl e \<Rightarrow> Inl e
        | Inr p \<Rightarrow> Inr (p\<lparr>pause := pa\<rparr>))"
    by (simp add: init_def Let_def split: sum.splits)
next
  show "as_list var \<noteq> [] \<and> (length (as_list f) = 1 \<or> length (as_list f) = length (as_list var)) \<longrightarrow>
      (\<exists>p. init var f sc ti xl yl xlm ylm lg pa od = Inr p \<and> pause p = pa)"
  proof
    assume a: "as_list var \<noteq> [] \<and> (length (as_list f) = 1 \<or> length (as_list f) = length (as_list var))"
    then obtain fm where "prepare_format_option (as_list var) f = Inr fm"
      by (auto simp: prepare_format_option_def Let_def)
    from init_returns [OF _ this, of sc ti xl yl xlm ylm lg pa od] a
    show "\<exists>p. init var f sc ti xl yl xlm ylm lg pa od = Inr p \<and> pause p = pa" by auto
  qed
qed

theorem pacing_delay_unchecked_witness:
  "as_list (Str ''temp'') \<noteq> [] \<and> length (as_list (Str ''b'')) = 1
 \<and> (\<exists>p. init (Str ''temp'') (Str ''b'') 0 None ''Time'' None None None None 0 None = Inr p \<and> pause p = 0)
 \<and> (\<exists>p. init (Str ''temp'') (Str ''b'') 0 None ''Time'' None None None None (1 / 1000) None = Inr p
        \<and> pause p = 1 / 1000)"
  using pacing_delay_unchecked [of "Str ''temp''" "Str ''b''" 0 None "''Time''" None None None None 0 None 0, THEN conjunct2]
    pacing_delay_unchecked [of "Str ''temp''" "Str ''b''" 0 None "''Time''" None None None None "1 / 1000" None 0, THEN conjunct2]
  by simp

subsection \<open>Value-axis limits\<close>

text \<open>
  With one tracked variable the code computes what the specification says.
\<close>

lemma y_limits_one_variable:
  assumes "data self = [(n, vs)]" and "vs \<noteq> []" and "ylim self = Some fl"
    and "axes_margin self = 1 / 100"
  shows "y_limits self auto = Inr (Some (spec_y_limits fl (data self) auto))"
proof -
  obtain v vs' where vs: "vs = v # vs'" using assms(2) by (cases vs) auto
  obtain y0 y1 where f: "fl = (y0, y1)" by (cases fl)
  have one: "py_min list_less [vs] = Inr vs" "py_max list_less [vs] = Inr vs"
    by simp_all
  have lo: "py_min (<) vs = Inr (Min (set vs))" and hi: "py_max (<) vs = Inr (Max (set vs))"
    unfolding vs by (rule py_min_Min, rule py_max_Max)
  show ?thesis
    by (simp add: y_limits_def spec_y_limits_def all_values_def Let_def f assms(1,3,4) one lo hi
        del: py_min.simps py_max.simps)
qed

text \<open>
  Claim C1 fails on the code with two variables. \<open>min(self.data.values())\<close> is the
  least of the value lists in the lexicographic order of lists, not the list that holds
  the least value. The plotter of \<open>a\<close> and \<open>b\<close> with \<open>ylim = [0.5, 3]\<close> is started with
  \<open>a = 1, b = 2\<close> and stepped with \<open>a = 5, b = 0\<close>: the least list is \<open>[1, 5]\<close> and the
  greatest is \<open>[2, 0]\<close>, the limits set are \<open>(0.5, 3)\<close>, where the minimum \<open>0\<close> and the
  maximum \<open>5\<close> over all values with the margin \<open>0.055\<close> give \<open>(-0.055, 5.055)\<close>.
\<close>

theorem value_axis_limits_two_variables:
  "init (StrList [''a'', ''b'']) (Str ''b'') 0 None ''Time'' None None (Some (1 / 2, 3)) None
     (1 / 1000) None = Inr ab_plotter
 \<and> run [Start (ab_tick 0 1 2), Step (ab_tick 1 5 0)] (ab_plotter, backend0) = Inr ab_run
 \<and> data (fst ab_run) = [(''a'', [1, 5]), (''b'', [2, 0])]
 \<and> axis_ylim (snd ab_run) = Some (1 / 2, 3)
 \<and> spec_y_limits (1 / 2, 3) (data (fst ab_run)) (- 1 / 4, 21 / 4) = (- 11 / 200, 1011 / 200)"
proof -
  have i: "init (StrList [''a'', ''b'']) (Str ''b'') 0 None ''Time'' None None (Some (1 / 2, 3)) None
     (1 / 1000) None = Inr ab_plotter"
    by (simp add: init_def ab_plotter_def prepare_format_option_def dict_zip_def
        or_default_title_def prepare_default_title_def dict_empty_lists_def)
  have r: "run [Start (ab_tick 0 1 2), Step (ab_tick 1 5 0)] (ab_plotter, backend0)
     = Inr (ab_plotter\<lparr>fig := Some 1, time := [0, 1], data := [(''a'', [1, 5]), (''b'', [2, 0])]\<rparr>,
            backend0\<lparr>fig_count := 1, window_title := ''a & b'',
              drawn := [([0, 1], [1, 5], ''b'', ''a''), ([0, 1], [2, 0], ''b'', ''b'')],
              axis_xlabel := ''Time'', axis_ylabel := ''a & b'', axis_ylim := Some (1 / 2, 3)\<rparr>)"
    by (simp add: call_defs ab_tick_def ab_plotter_def)
  have s: "spec_y_limits (1 / 2, 3) [(''a'', [1, 5]), (''b'', [2, 0])] (- 1 / 4, 21 / 4) = (- 11 / 200, 1011 / 200)"
    by (simp add: spec_y_limits_def all_values_def Let_def)
  from i r s show ?thesis
    by (simp add: ab_run_def)
qed

subsection \<open>Lengths of the series\<close>

lemma plot_after:
  assumes "sample_vars (var_names self) (env t) (data self) = Inr d"
  shows "fst (after (plot t (self, plt))) = self\<lparr>time := time self @ [now t], data := d\<rparr>"
proof (cases "plot t (self, plt)")
  case (Inl x)
  obtain e self' plt' where x: "x = (e, (self', plt'))" by (cases x) auto
  from plot_Inl [of t self plt e self' plt'] Inl x assms
  have "self' = self\<lparr>time := time self @ [now t], data := data self'\<rparr>" "data self' = d"
    by auto
  then have "self' = self\<lparr>time := time self @ [now t], data := d\<rparr>" by simp
  with Inl x show ?thesis by simp
next
  case (Inr w')
  obtain self' plt' where w': "w' = (self', plt')" by (cases w')
  from plot_Inr [of t self plt self' plt'] Inr w' assms show ?thesis by auto
qed

lemma update_after:
  "fst (after (update t (self, plt)))
     = (if fig self = None then self else fst (after (plot t (self, clf plt))))"
  by (auto simp: update_def save_frame split: option.splits sum.splits prod.splits)

lemma aligned_plot:
  assumes "wf self" and "distinct (var_names self)" and "aligned self" and "readable self t"
  shows "aligned (fst (after (plot t (self, plt))))"
proof -
  from assms(1) have keys: "set (var_names self) \<subseteq> fst ` set (data self)"
    by (simp add: wf_def)
  from sample_vars_returns [OF keys] assms(4)
  obtain d where d: "sample_vars (var_names self) (env t) (data self) = Inr d"
    by (auto simp: readable_def)
  have "\<exists>vs. map_of d n = Some vs \<and> length vs = Suc (length (time self))"
    if n: "n \<in> set (var_names self)" for n
  proof -
    from sample_vars_appends [OF d assms(2) n] obtain vs v
      where "map_of (data self) n = Some vs" "map_of d n = Some (vs @ [v])" by blast
    moreover from assms(3) n this(1) have "length vs = length (time self)"
      by (auto simp: aligned_def)
    ultimately show ?thesis by simp
  qed
  then show ?thesis
    by (simp add: plot_after [OF d] aligned_def)
qed

lemma aligned_do_call:
  assumes "wf self" and "distinct (var_names self)" and "aligned self" and "readable self (tick_of c)"
  shows "aligned (fst (after (do_call c (self, plt))))"
proof (cases c)
  case (Start t)
  let ?s = "self\<lparr>fig := Some (Suc (fig_count plt))\<rparr>"
  have "wf ?s" "distinct (var_names ?s)" "aligned ?s" "readable ?s t"
    using assms Start by (simp_all add: wf_def aligned_def readable_def)
  from aligned_plot [OF this] Start show ?thesis
    by (simp add: do_call_update update_after)
next
  case (Step t)
  with assms aligned_plot [of self t "clf plt"] show ?thesis
    by (simp add: do_call_update update_after)
qed

lemma aligned_run:
  assumes "wf (fst w)" and "distinct (var_names (fst w))" and "aligned (fst w)"
    and "\<forall>c \<in> set cs. readable (fst w) (tick_of c)"
  shows "aligned (fst (after (run cs w)))"
  using assms
proof (induction cs arbitrary: w)
  case Nil
  then show ?case by simp
next
  case (Cons c cs)
  obtain self plt where w: "w = (self, plt)" by (cases w)
  from Cons.prems w have al: "aligned (fst (after (do_call c w)))"
    using aligned_do_call [of self c plt] by simp
  show ?case
  proof (cases "do_call c w")
    case (Inl x)
    with al show ?thesis by simp
  next
    case (Inr w')
    from do_call_same_config [of w c] Inr have sc: "same_config (fst w) (fst w')" by simp
    then have "wf (fst w')" "distinct (var_names (fst w'))" "\<forall>c \<in> set cs. readable (fst w') (tick_of c)"
      using Cons.prems same_config_wf [OF sc] by (simp_all add: same_config_def readable_def)
    moreover from al Inr have "aligned (fst w')" by simp
    ultimately have "aligned (fst (after (run cs w')))" using Cons.IH [of w'] by blast
    with Inr show ?thesis by simp
  qed
qed

lemma do_call_time:
  assumes "do_call c (self, plt) = Inr (self', plt')"
  shows "time self' = time self @ [now (tick_of c)]"
proof -
  from do_call_done [OF disjI1 [OF assms]] obtain f plt0 plt1
    where "plot (tick_of c) (self\<lparr>fig := f\<rparr>, clf plt0) = Inr (self', plt1)" by blast
  from plot_Inr [OF this] show ?thesis by auto
qed

lemma run_times:
  "run cs w = Inr w' \<Longrightarrow> time (fst w') = time (fst w) @ map (\<lambda>c. now (tick_of c)) cs"
proof (induction cs arbitrary: w)
  case Nil
  then show ?case by simp
next
  case (Cons c cs)
  from Cons.prems obtain w1 where c: "do_call c w = Inr w1" and r: "run cs w1 = Inr w'"
    by (auto split: sum.splits)
  from do_call_time [of c "fst w" "snd w" "fst w1" "snd w1"] c
  have "time (fst w1) = time (fst w) @ [now (tick_of c)]" by simp
  with Cons.IH [OF r] show ?case by simp
qed

lemma aligned_init:
  assumes "init var f sc ti xl yl xlm ylm lg pa od = Inr p"
  shows "aligned p"
  using init_Inr [OF assms] dict_empty_lists_props(3) [of "as_list var", where ?'v = real]
  by (simp add: aligned_def)

text \<open>
  Claim C3. A plotter is constructed with distinct names, and any sequence of \<open>start\<close>
  and \<open>step\<close> calls is made in which every tracked name is an attribute of \<open>env\<close>.
  Afterwards (whether every call returned or one ended the sequence with an exception or
  \<open>quit()\<close>), the series of every tracked variable has as many values as there are
  recorded times; when every call returned, the recorded times are the times of the calls.
\<close>

theorem series_aligned:
  assumes "init var f sc ti xl yl xlm ylm lg pa od = Inr p0"
    and "distinct (as_list var)"
    and "\<forall>c \<in> set calls. \<forall>n \<in> set (as_list var). env (tick_of c) n \<noteq> None"
  shows "(\<forall>n \<in> set (as_list var).
           \<exists>vs. map_of (data (fst (after (run calls (p0, plt))))) n = Some vs
              \<and> length vs = length (time (fst (after (run calls (p0, plt))))))
     \<and> (\<forall>w. run calls (p0, plt) = Inr w \<longrightarrow> time (fst w) = map (\<lambda>c. now (tick_of c)) calls)"
proof -
  let ?p = "fst (after (run calls (p0, plt)))"
  from init_Inr [OF assms(1)] have v: "var_names p0 = as_list var" and t: "time p0 = []" by simp_all
  have "aligned ?p"
    using aligned_run [of "(p0, plt)" calls] wf_init [OF assms(1)] aligned_init [OF assms(1)] assms(2,3) v
    by (simp add: readable_def)
  moreover from run_same_config [of "(p0, plt)" calls] v have "var_names ?p = as_list var"
    by (simp add: same_config_def)
  ultimately have "\<forall>n \<in> set (as_list var). \<exists>vs. map_of (data ?p) n = Some vs \<and> length vs = length (time ?p)"
    by (simp add: aligned_def)
  moreover have "\<forall>w. run calls (p0, plt) = Inr w \<longrightarrow> time (fst w) = map (\<lambda>c. now (tick_of c)) calls"
    using run_times [of calls "(p0, plt)"] t by simp
  ultimately show ?thesis by blast
qed

theorem series_aligned_witness:
  "init (Str ''temp'') (Str ''b'') 0 None ''Time'' None None None None (1 / 1000) None
     = Inr (temp_plotter 0 None None None)
 \<and> distinct (as_list (Str ''temp''))
 \<and> env (tick_of (Start (temp_tick 0 10))) ''temp'' = Some 10
 \<and> env (tick_of (Step (temp_tick 1 12))) ''temp'' = Some 12
 \<and> (\<exists>vs. map_of (data (fst temp_run2)) ''temp'' = Some vs \<and> length vs = length (time (fst temp_run2)))
 \<and> time (fst temp_run2) = [0, 1]"
proof -
  have c: "\<forall>c \<in> set [Start (temp_tick 0 10), Step (temp_tick 1 12)].
       \<forall>n \<in> set (as_list (Str ''temp'')). env (tick_of c) n \<noteq> None"
    by (simp add: temp_tick_def)
  have d: "distinct (as_list (Str ''temp''))" by simp
  have r: "run [Start (temp_tick 0 10), Step (temp_tick 1 12)] (temp_plotter 0 None None None, backend0) = Inr temp_run2"
    unfolding temp_run2_def by (simp add: call_defs temp_tick_def temp_plotter_def)
  note i = init_temp [of 0 None None None]
  note main = series_aligned [OF i d c, where plt = backend0, folded temp_run2_def]
  from main have 1: "\<exists>vs. map_of (data (fst temp_run2)) ''temp'' = Some vs \<and> length vs = length (time (fst temp_run2))"
    by simp
  from main r have "time (fst temp_run2) = map (\<lambda>c. now (tick_of c)) [Start (temp_tick 0 10), Step (temp_tick 1 12)]"
    by blast
  then have 2: "time (fst temp_run2) = [0, 1]"
    by (simp add: temp_tick_def)
  have e: "env (tick_of (Start (temp_tick 0 10))) ''temp'' = Some 10"
    "env (tick_of (Step (temp_tick 1 12))) ''temp'' = Some 12"
    by (simp_all add: temp_tick_def)
  from i d e 1 2 show ?thesis by blast
qed

subsection \<open>Missing attributes\<close>

lemma sample_vars_first_missing:
  assumes "set (pre @ k # post) \<subseteq> fst ` set d" and "\<forall>n \<in> set pre. e n \<noteq> None" and "e k = None"
  shows "\<exists>d'. sample_vars pre e d = Inr d' \<and> sample_vars (pre @ k # post) e d = Inl (AttributeError k, d')"
proof -
  from assms(1) have "set pre \<subseteq> fst ` set d" by simp
  from sample_vars_returns [OF this assms(2)] obtain d' where d': "sample_vars pre e d = Inr d'" ..
  from sample_vars_keys [of pre e d d'] d' have "map fst d' = map fst d" by simp
  then have "fst ` set d' = fst ` set d" by (metis set_map)
  with assms(1) have "k \<in> fst ` set d'" by simp
  then obtain vs where "map_of d' k = Some vs"
    by (metis domD dom_map_of_conv_image_fst)
  with assms(3) have "sample_vars (k # post) e d' = Inl (AttributeError k, d')" by simp
  with d' show ?thesis by (simp add: sample_vars_append)
qed

lemma first_missing:
  assumes "\<not> readable self t"
  shows "\<exists>pre k post. var_names self = pre @ k # post \<and> (\<forall>n \<in> set pre. env t n \<noteq> None) \<and> env t k = None"
proof -
  from assms have "\<exists>n \<in> set (var_names self). env t n = None" by (simp add: readable_def)
  from split_list_first_prop [OF this] show ?thesis by blast
qed

lemma plot_fails:
  assumes "sample_vars (var_names self) (env t) (data self) = Inl (x, d')"
  shows "plot t (self, plt) = Inl (x, (self\<lparr>time := time self @ [now t], data := d'\<rparr>, plt))"
  using assms by (simp add: plot_def Let_def)

lemma step_fails:
  assumes "sample_vars (var_names self) (env t) (data self) = Inl (x, d')" and "fig self \<noteq> None"
  shows "step t (self, plt) = Inl (x, (self\<lparr>time := time self @ [now t], data := d'\<rparr>, clf plt))"
  using assms(2) plot_fails [OF assms(1), of "clf plt"] by (auto simp: step_def update_def)

text \<open>
  Claim C6. A plotter built by \<open>__init__\<close> has gone through any calls, and \<open>step\<close> is
  called with an \<open>env\<close> that lacks a tracked name. The call raises \<open>AttributeError\<close> (the
  specification's AttributeNotFoundError) and the exception ends the driver's sequence
  as it is: nothing catches it. On a started plotter it is raised for the first tracked
  name that \<open>env\<close> lacks, the time was appended once (no retry), nothing is drawn and
  no frame is saved.
\<close>

theorem missing_attribute_raises:
  assumes "init var f sc ti xl yl xlm ylm lg pa od = Inr p0"
    and "after (run calls (p0, plt0)) = (self, plt)"
    and "\<exists>n \<in> set (as_list var). env t n = None"
  shows "\<exists>a self' plt'.
           step t (self, plt) = Inl (AttributeError a, (self', plt'))
         \<and> run (Step t # rest) (self, plt) = Inl (AttributeError a, (self', plt'))
         \<and> (fig self \<noteq> None \<longrightarrow>
               a \<in> set (as_list var) \<and> env t a = None
             \<and> time self' = time self @ [now t]
             \<and> drawn plt' = [] \<and> saved plt' = saved plt)"
proof (cases "fig self")
  case None
  then show ?thesis by (simp add: step_def update_def)
next
  case (Some fg)
  from wf_run [of "(p0, plt0)" calls] wf_init [OF assms(1)] assms(2) have wf: "wf self" by simp
  from run_same_config [of "(p0, plt0)" calls] assms(2) init_Inr [OF assms(1)]
  have v: "var_names self = as_list var" by (simp add: same_config_def)
  with assms(3) have "\<not> readable self t" by (simp add: readable_def)
  from first_missing [OF this] obtain pre k post
    where sp: "var_names self = pre @ k # post" and k: "env t k = None"
      and pre: "\<forall>n \<in> set pre. env t n \<noteq> None" by blast
  from wf sp have "set (pre @ k # post) \<subseteq> fst ` set (data self)" by (simp add: wf_def)
  from sample_vars_first_missing [OF this pre k] sp obtain d'
    where "sample_vars (var_names self) (env t) (data self) = Inl (AttributeError k, d')" by auto
  from step_fails [OF this, of plt] Some
  have s: "step t (self, plt) = Inl (AttributeError k, (self\<lparr>time := time self @ [now t], data := d'\<rparr>, clf plt))"
    by simp
  moreover from sp v have "k \<in> set (as_list var)" by simp
  ultimately show ?thesis using k by (simp add: clf_def)
qed

theorem missing_attribute_raises_witness:
  "init (StrList [''a'', ''b'']) (Str ''b'') 0 None ''Time'' None None (Some (1 / 2, 3)) None
     (1 / 1000) None = Inr ab_plotter
 \<and> (\<exists>n \<in> set (as_list (StrList [''a'', ''b''])). env (a_only_tick 1 5) n = None)
 \<and> fig (fst ab_run1) \<noteq> None
 \<and> (\<exists>self' plt'. step (a_only_tick 1 5) ab_run1 = Inl (AttributeError ''b'', (self', plt'))
       \<and> run [Step (a_only_tick 1 5), Step (ab_tick 2 1 1)] ab_run1 = Inl (AttributeError ''b'', (self', plt'))
       \<and> time self' = [0, 1] \<and> drawn plt' = [] \<and> saved plt' = [])"
proof -
  have i: "init (StrList [''a'', ''b'']) (Str ''b'') 0 None ''Time'' None None (Some (1 / 2, 3)) None
     (1 / 1000) None = Inr ab_plotter"
    by (simp add: init_def ab_plotter_def prepare_format_option_def dict_zip_def
        or_default_title_def prepare_default_title_def dict_empty_lists_def)
  have m: "\<exists>n \<in> set (as_list (StrList [''a'', ''b''])). env (a_only_tick 1 5) n = None"
    by (simp add: a_only_tick_def)
  have w: "ab_run1 = (ab_plotter\<lparr>fig := Some 1, time := [0], data := [(''a'', [1]), (''b'', [2])]\<rparr>, snd ab_run1)"
    "saved (snd ab_run1) = []"
    unfolding ab_run1_def by (simp_all add: call_defs ab_tick_def ab_plotter_def)
  have r: "after (run [Start (ab_tick 0 1 2)] (ab_plotter, backend0)) = (fst ab_run1, snd ab_run1)"
    by (simp add: ab_run1_def)
  have fg: "fig (fst ab_run1) \<noteq> None" and t: "time (fst ab_run1) = [0]"
    by (subst w, simp)+
  from missing_attribute_raises [OF i r m, of "[Step (ab_tick 2 1 1)]"] fg
  obtain a self' plt' where s: "step (a_only_tick 1 5) ab_run1 = Inl (AttributeError a, (self', plt'))"
    "run [Step (a_only_tick 1 5), Step (ab_tick 2 1 1)] ab_run1 = Inl (AttributeError a, (self', plt'))"
    "a \<in> set (as_list (StrList [''a'', ''b'']))" "env (a_only_tick 1 5) a = None"
    "time self' = time (fst ab_run1) @ [now (a_only_tick 1 5)]" "drawn plt' = []" "saved plt' = saved (snd ab_run1)"
    by auto
  from s(3,4) have "a = ''b''" by (auto simp: a_only_tick_def split: if_splits)
  with s t w(2) i m fg show ?thesis
    by (auto simp: a_only_tick_def)
qed

lemma aligned_run_Inr:
  assumes "wf (fst w)" and "distinct (var_names (fst w))" and "aligned (fst w)" and "run cs w = Inr w'"
  shows "aligned (fst w')"
  using assms
proof (induction cs arbitrary: w)
  case Nil
  then show ?case by simp
next
  case (Cons c cs)
  from Cons.prems(4) obtain w1 where c: "do_call c w = Inr w1" and r: "run cs w1 = Inr w'"
    by (auto split: sum.splits)
  obtain self plt where w: "w = (self, plt)" by (cases w)
  obtain self1 plt1 where w1: "w1 = (self1, plt1)" by (cases w1)
  from do_call_done [of c self plt self1 plt1] c w w1 obtain fg plt0 plt2
    where p: "plot (tick_of c) (self\<lparr>fig := fg\<rparr>, clf plt0) = Inr (self1, plt2)" by auto
  from plot_Inr [OF p] obtain d
    where d: "sample_vars (var_names self) (env (tick_of c)) (data self) = Inr d"
      and s1: "self1 = self\<lparr>fig := fg, time := time self @ [now (tick_of c)], data := d\<rparr>"
    by auto
  have "\<exists>vs. map_of d n = Some vs \<and> length vs = Suc (length (time self))"
    if n: "n \<in> set (var_names self)" for n
  proof -
    from Cons.prems(2) w have "distinct (var_names self)" by simp
    from sample_vars_appends [OF d this n] obtain vs v
      where "map_of (data self) n = Some vs" "map_of d n = Some (vs @ [v])" by blast
    moreover from Cons.prems(3) w n this(1) have "length vs = length (time self)"
      by (auto simp: aligned_def)
    ultimately show ?thesis by simp
  qed
  then have al: "aligned (fst w1)" by (simp add: w1 s1 aligned_def)
  from do_call_same_config [of w c] c have sc: "same_config (fst w) (fst w1)" by simp
  then have "wf (fst w1)" "distinct (var_names (fst w1))"
    using Cons.prems same_config_wf [OF sc] by (simp_all add: same_config_def)
  from Cons.IH [OF this al r] show ?case .
qed

text \<open>
  Claim C10. A plotter with distinct names has been started and every call so far has
  returned. \<open>step\<close> is called with an \<open>env\<close> that has the attributes of the names before
  the \<open>k\<close>-th and lacks the \<open>k\<close>-th. The call raises \<open>AttributeError\<close> for the \<open>k\<close>-th name
  and leaves the plotter changed: the time is appended, the series of the names before
  the \<open>k\<close>-th have their new value and are as long as the time series, and the series of
  the \<open>k\<close>-th and of every later name are one element shorter than the time series.
\<close>

theorem failing_step_not_atomic:
  assumes "init var f sc ti xl yl xlm ylm lg pa od = Inr p0"
    and "distinct (as_list var)"
    and "run calls (p0, plt0) = Inr (self, plt)"
    and "fig self \<noteq> None"
    and "as_list var = pre @ k # post"
    and "\<forall>n \<in> set pre. env t n \<noteq> None"
    and "env t k = None"
  shows "\<exists>self' plt'.
           step t (self, plt) = Inl (AttributeError k, (self', plt'))
         \<and> time self' = time self @ [now t]
         \<and> (\<forall>n \<in> set pre. \<exists>vs v. map_of (data self) n = Some vs \<and> env t n = Some v
                \<and> map_of (data self') n = Some (vs @ [v]) \<and> length (vs @ [v]) = length (time self'))
         \<and> (\<forall>n \<in> set (k # post). \<exists>vs. map_of (data self) n = Some vs
                \<and> map_of (data self') n = Some vs \<and> length (time self') = length vs + 1)"
proof -
  from init_Inr [OF assms(1)] have v0: "var_names p0 = as_list var" by simp
  from run_same_config [of "(p0, plt0)" calls] assms(3) v0
  have v: "var_names self = as_list var" by (simp add: same_config_def)
  from wf_run [of "(p0, plt0)" calls] wf_init [OF assms(1)] assms(3) have wf: "wf self" by simp
  from aligned_run_Inr [of "(p0, plt0)" calls "(self, plt)"] wf_init [OF assms(1)]
    aligned_init [OF assms(1)] assms(2,3) v0
  have al: "aligned self" by simp
  from wf v assms(5) have keys: "set (pre @ k # post) \<subseteq> fst ` set (data self)"
    by (simp add: wf_def)
  from sample_vars_first_missing [OF keys assms(6,7)] obtain d'
    where pre: "sample_vars pre (env t) (data self) = Inr d'"
      and all: "sample_vars (var_names self) (env t) (data self) = Inl (AttributeError k, d')"
    using v assms(5) by auto
  let ?s = "self\<lparr>time := time self @ [now t], data := d'\<rparr>"
  from step_fails [OF all assms(4), of plt]
  have s: "step t (self, plt) = Inl (AttributeError k, (?s, clf plt))" .
  from assms(2,5) have dp: "distinct pre" and disj: "\<forall>n \<in> set (k # post). n \<notin> set pre"
    by auto
  have before: "\<exists>vs v. map_of (data self) n = Some vs \<and> env t n = Some v
                \<and> map_of (data ?s) n = Some (vs @ [v]) \<and> length (vs @ [v]) = length (time ?s)"
    if n: "n \<in> set pre" for n
  proof -
    from sample_vars_appends [OF pre dp n] obtain vs x
      where a: "map_of (data self) n = Some vs" "env t n = Some x" "map_of d' n = Some (vs @ [x])"
      by blast
    from n v assms(5) have "n \<in> set (var_names self)" by simp
    with al a(1) have "length vs = length (time self)"
      by (auto simp: aligned_def)
    with a show ?thesis by simp
  qed
  have later: "\<exists>vs. map_of (data self) n = Some vs
                \<and> map_of (data ?s) n = Some vs \<and> length (time ?s) = length vs + 1"
    if n: "n \<in> set (k # post)" for n
  proof -
    from n disj have "n \<notin> set pre" by blast
    from sample_vars_untouched [OF this, of "env t" "data self" d'] pre
    have same: "map_of d' n = map_of (data self) n" by simp
    from n v assms(5) have "n \<in> set (var_names self)" by auto
    with al obtain vs where "map_of (data self) n = Some vs" "length vs = length (time self)"
      by (auto simp: aligned_def)
    with same show ?thesis by simp
  qed
  from s before later show ?thesis by auto
qed

theorem failing_step_not_atomic_witness:
  "init (StrList [''a'', ''b'']) (Str ''b'') 0 None ''Time'' None None (Some (1 / 2, 3)) None
     (1 / 1000) None = Inr ab_plotter
 \<and> distinct (as_list (StrList [''a'', ''b'']))
 \<and> run [Start (ab_tick 0 1 2)] (ab_plotter, backend0) = Inr ab_run1
 \<and> fig (fst ab_run1) \<noteq> None
 \<and> as_list (StrList [''a'', ''b'']) = [''a''] @ ''b'' # []
 \<and> env (a_only_tick 1 5) ''a'' = Some 5
 \<and> env (a_only_tick 1 5) ''b'' = None
 \<and> (\<exists>self' plt'. step (a_only_tick 1 5) ab_run1 = Inl (AttributeError ''b'', (self', plt'))
       \<and> time self' = [0, 1]
       \<and> map_of (data self') ''a'' = Some [1, 5]
       \<and> map_of (data self') ''b'' = Some [2])"
proof -
  have i: "init (StrList [''a'', ''b'']) (Str ''b'') 0 None ''Time'' None None (Some (1 / 2, 3)) None
     (1 / 1000) None = Inr ab_plotter"
    by (simp add: init_def ab_plotter_def prepare_format_option_def dict_zip_def
        or_default_title_def prepare_default_title_def dict_empty_lists_def)
  have d: "distinct (as_list (StrList [''a'', ''b'']))" by simp
  have w: "fst ab_run1 = ab_plotter\<lparr>fig := Some 1, time := [0], data := [(''a'', [1]), (''b'', [2])]\<rparr>"
    unfolding ab_run1_def by (simp add: call_defs ab_tick_def ab_plotter_def)
  have r: "run [Start (ab_tick 0 1 2)] (ab_plotter, backend0) = Inr (fst ab_run1, snd ab_run1)"
    unfolding ab_run1_def by (simp add: call_defs ab_tick_def ab_plotter_def)
  have fg: "fig (fst ab_run1) \<noteq> None" by (simp add: w)
  have sp: "as_list (StrList [''a'', ''b'']) = [''a''] @ ''b'' # []" by simp
  have pre: "\<forall>n \<in> set [''a'']. env (a_only_tick 1 5) n \<noteq> None"
    and k: "env (a_only_tick 1 5) ''b'' = None"
    by (simp_all add: a_only_tick_def)
  from failing_step_not_atomic [OF i d r fg sp pre k]
  obtain self' plt' where s: "step (a_only_tick 1 5) (fst ab_run1, snd ab_run1) = Inl (AttributeError ''b'', (self', plt'))"
    "time self' = time (fst ab_run1) @ [now (a_only_tick 1 5)]"
    "\<forall>n \<in> set [''a'']. \<exists>vs v. map_of (data (fst ab_run1)) n = Some vs \<and> env (a_only_tick 1 5) n = Some v
                \<and> map_of (data self') n = Some (vs @ [v]) \<and> length (vs @ [v]) = length (time self')"
    "\<forall>n \<in> set [''b'']. \<exists>vs. map_of (data (fst ab_run1)) n = Some vs
                \<and> map_of (data self') n = Some vs \<and> length (time self') = length vs + 1"
    by blast
  from s(2) have t: "time self' = [0, 1]" by (simp add: w a_only_tick_def)
  from s(3) have a: "map_of (data self') ''a'' = Some [1, 5]" by (simp add: w a_only_tick_def ab_plotter_def)
  from s(4) have b: "map_of (data self') ''b'' = Some [2]" by (simp add: w ab_plotter_def)
  from s(1) have "step (a_only_tick 1 5) ab_run1 = Inl (AttributeError ''b'', (self', plt'))" by simp
  with t a b have "\<exists>self' plt'. step (a_only_tick 1 5) ab_run1 = Inl (AttributeError ''b'', (self', plt'))
       \<and> time self' = [0, 1]
       \<and> map_of (data self') ''a'' = Some [1, 5]
       \<and> map_of (data self') ''b'' = Some [2]" by blast
  moreover have "env (a_only_tick 1 5) ''a'' = Some 5" by (simp add: a_only_tick_def)
  ultimately show ?thesis using i d r fg sp k by simp
qed

subsection \<open>The limit computation and empty sequences\<close>

lemma plot_returns_sampled:
  assumes "wf self" and "sample_vars (var_names self) (env t) (data self) = Inr d"
    and "ylim self \<noteq> None \<longrightarrow> var_names self \<noteq> []"
  shows "\<exists>w'. plot t (self, plt) = Inr w'"
proof -
  from assms(1) have dk: "distinct (map fst (data self))" and keys: "fst ` set (data self) = set (var_names self)"
    and fk: "set (var_names self) \<subseteq> fst ` set (fmt self)"
    by (simp_all add: wf_def)
  note d = assms(2)
  from sample_vars_keys [of "var_names self" "env t" "data self" d] d
  have dkeys: "map fst d = map fst (data self)" by simp
  let ?s2 = "self\<lparr>time := time self @ [now t], data := d\<rparr>"
  obtain pt pd where win: "select_window ?s2 = (pt, pd)" by (cases "select_window ?s2")
  from select_window_keys [of ?s2] win dkeys have "map fst pd = map fst (data self)" by simp
  then have "fst ` set pd = fst ` set (data self)" by (metis set_map)
  with keys fk have "fst ` set pd \<subseteq> fst ` set (fmt self)" by simp
  from draw_lines_returns [OF this] obtain plt1 where dl: "draw_lines (fmt self) pt pd plt = Inr plt1"
    by blast
  have "\<exists>yl. y_limits ?s2 (get_ylim t) = Inr yl"
  proof (cases "ylim self")
    case None
    then show ?thesis by (simp add: y_limits_def)
  next
    case (Some a)
    with assms(3) keys have "data self \<noteq> []" by auto
    with dkeys have "data ?s2 \<noteq> []" by auto
    moreover from sample_vars_all_nonempty [OF d dk keys] have "\<forall>vs \<in> snd ` set (data ?s2). vs \<noteq> []"
      by simp
    ultimately show ?thesis by (rule y_limits_returns)
  qed
  then obtain yl where yl: "y_limits ?s2 (get_ylim t) = Inr yl" ..
  have "\<exists>xl. x_limits ?s2 = Inr xl"
    using x_limits_value [of ?s2] by simp
  then obtain xl where xl: "x_limits ?s2 = Inr xl" ..
  let ?plt2 = "if truthy (legend self) then plt1\<lparr>legend_loc := legend self\<rparr> else plt1"
  let ?plt3 = "?plt2\<lparr>axis_xlabel := xlabel self, axis_ylabel := ylabel self\<rparr>"
  from set_axes_limits_returns [OF yl xl, of ?plt3] obtain plt4
    where "set_axes_limits ?s2 (get_ylim t) ?plt3 = Inr plt4" ..
  with d win dl show ?thesis
    by (cases "truthy (legend self)") (simp_all add: plot_def Let_def)
qed

lemma plot_no_ValueError:
  assumes "wf self" and "var_names self \<noteq> []"
  shows "plot t (self, plt) \<noteq> Inl (ValueError, w')"
proof
  assume a: "plot t (self, plt) = Inl (ValueError, w')"
  obtain self' plt' where w': "w' = (self', plt')" by (cases w')
  from plot_Inl [of t self plt ValueError self' plt'] a w'
    sample_vars_Inl [of "var_names self" "env t" "data self" ValueError "data self'"]
  have "sample_vars (var_names self) (env t) (data self) = Inr (data self')" by auto
  from plot_returns_sampled [OF assms(1) this, of plt] assms(2) a show False by auto
qed

text \<open>
  Claim C9. A plotter built by \<open>__init__\<close> with at least one name has gone through any
  calls. No further \<open>start\<close> or \<open>step\<close> call raises \<open>ValueError\<close>, the exception of \<open>min\<close>
  and \<open>max\<close> on an empty sequence; and after every call that redraws (it returns, or ends
  in \<open>quit()\<close> after the redraw), the sequences the limit computation took its minima
  and maxima over are non-empty: the times, the list of value lists, and every value
  list.
\<close>

theorem limits_never_on_empty:
  assumes "init var f sc ti xl yl xlm ylm lg pa od = Inr p0"
    and "as_list var \<noteq> []"
    and "after (run calls (p0, plt0)) = (self, plt)"
  shows "(\<forall>w'. do_call c (self, plt) \<noteq> Inl (ValueError, w'))
     \<and> (\<forall>self' plt'. do_call c (self, plt) = Inr (self', plt')
                     \<or> do_call c (self, plt) = Inl (SystemExit, (self', plt')) \<longrightarrow>
           time self' \<noteq> [] \<and> data self' \<noteq> [] \<and> (\<forall>vs \<in> snd ` set (data self'). vs \<noteq> []))"
proof -
  from wf_run [of "(p0, plt0)" calls] wf_init [OF assms(1)] assms(3) have wf: "wf self" by simp
  from run_same_config [of "(p0, plt0)" calls] assms(3) init_Inr [OF assms(1)]
  have v: "var_names self = as_list var" by (simp add: same_config_def)
  have A: "do_call c (self, plt) \<noteq> Inl (ValueError, w')" for w'
    proof
      assume a: "do_call c (self, plt) = Inl (ValueError, w')"
      obtain self' plt' where w': "w' = (self', plt')" by (cases w')
      define s0 where "s0 = (case c of Start t \<Rightarrow> self\<lparr>fig := Some (Suc (fig_count plt))\<rparr> | Step t \<Rightarrow> self)"
      define b0 where "b0 = (case c of Start t \<Rightarrow> plt\<lparr>fig_count := Suc (fig_count plt), window_title := title self\<rparr>
                              | Step t \<Rightarrow> plt)"
      have sb: "(case c of Start t \<Rightarrow> (self\<lparr>fig := Some (Suc (fig_count plt))\<rparr>,
                               plt\<lparr>fig_count := Suc (fig_count plt), window_title := title self\<rparr>)
                          | Step t \<Rightarrow> (self, plt)) = (s0, b0)"
        by (cases c) (simp_all add: s0_def b0_def)
      have "wf s0"
        using wf by (cases c) (simp_all add: s0_def wf_def)
      moreover have "var_names s0 \<noteq> []"
        using v assms(2) by (cases c) (simp_all add: s0_def)
      ultimately have s0: "wf s0" "var_names s0 \<noteq> []" .
      from a w' sb have "update (tick_of c) (s0, b0) = Inl (ValueError, (self', plt'))"
        by (simp add: do_call_update)
      from update_Inl [OF this] have "plot (tick_of c) (s0, clf b0) = Inl (ValueError, (self', plt'))"
        by auto
      with plot_no_ValueError [OF s0] show False by blast
    qed
  have B: "time self' \<noteq> [] \<and> data self' \<noteq> [] \<and> (\<forall>vs \<in> snd ` set (data self'). vs \<noteq> [])"
    if "do_call c (self, plt) = Inr (self', plt') \<or> do_call c (self, plt) = Inl (SystemExit, (self', plt'))"
    for self' plt'
  proof -
    from do_call_done [OF that] obtain fg plt0 plt1
      where p: "plot (tick_of c) (self\<lparr>fig := fg\<rparr>, clf plt0) = Inr (self', plt1)" by blast
    from plot_Inr [OF p] obtain d
      where d: "sample_vars (var_names self) (env (tick_of c)) (data self) = Inr d"
        and s': "self' = self\<lparr>fig := fg, time := time self @ [now (tick_of c)], data := d\<rparr>"
      by auto
    from wf have dk: "distinct (map fst (data self))" and keys: "fst ` set (data self) = set (var_names self)"
      by (simp_all add: wf_def)
    from sample_vars_keys [of "var_names self" "env (tick_of c)" "data self" d] d
    have "map fst d = map fst (data self)" by simp
    moreover from keys v assms(2) have "data self \<noteq> []" by auto
    ultimately have "d \<noteq> []" by auto
    with sample_vars_all_nonempty [OF d dk keys] s'
    show ?thesis
      by simp
  qed
  from A B show ?thesis by blast
qed

theorem limits_never_on_empty_witness:
  "init (Str ''temp'') (Str ''b'') 0 None ''Time'' None None (Some (0, 10)) None (1 / 1000) None
     = Inr (temp_plotter 0 None (Some (0, 10)) None)
 \<and> as_list (Str ''temp'') \<noteq> []
 \<and> do_call (Step (temp_tick 1 20)) temp_lim1 = Inr temp_lim2
 \<and> time (fst temp_lim2) = [0, 1] \<and> data (fst temp_lim2) = [(''temp'', [2, 20])]
 \<and> time (fst temp_lim2) \<noteq> [] \<and> data (fst temp_lim2) \<noteq> []
 \<and> axis_ylim (snd temp_lim2) = Some (0, 2001 / 100)"
proof -
  note i = init_temp [of 0 None "Some (0, 10)" None]
  have ne: "as_list (Str ''temp'') \<noteq> []" by simp
  have w: "temp_lim1 = (temp_plotter 0 None (Some (0, 10)) None\<lparr>fig := Some 1, time := [0], data := [(''temp'', [2])]\<rparr>,
                snd temp_lim1)"
    unfolding temp_lim1_def by (simp add: call_defs temp_tick_def temp_plotter_def)
  have a: "after (run [Start (temp_tick 0 2)] (temp_plotter 0 None (Some (0, 10)) None, backend0))
             = (fst temp_lim1, snd temp_lim1)"
    by (simp add: temp_lim1_def)
  have r: "do_call (Step (temp_tick 1 20)) (fst temp_lim1, snd temp_lim1) = Inr (fst temp_lim2, snd temp_lim2)"
    unfolding temp_lim2_def by (subst (1 2 3 4) w) (simp add: call_defs temp_tick_def temp_plotter_def)
  have s: "fst temp_lim2 = temp_plotter 0 None (Some (0, 10)) None\<lparr>fig := Some 1, time := [0, 1], data := [(''temp'', [2, 20])]\<rparr>"
    and y: "axis_ylim (snd temp_lim2) = Some (0, 2001 / 100)"
    unfolding temp_lim2_def by (subst w, simp add: call_defs temp_tick_def temp_plotter_def)+
  from limits_never_on_empty [OF i ne a, of "Step (temp_tick 1 20)"] r
  have "time (fst temp_lim2) \<noteq> [] \<and> data (fst temp_lim2) \<noteq> []
      \<and> (\<forall>vs \<in> snd ` set (data (fst temp_lim2)). vs \<noteq> [])"
    by blast
  moreover from r have "do_call (Step (temp_tick 1 20)) temp_lim1 = Inr temp_lim2" by simp
  moreover have "time (fst temp_lim2) = [0, 1]" "data (fst temp_lim2) = [(''temp'', [2, 20])]"
    by (simp_all add: s)
  ultimately show ?thesis using i ne y by blast
qed

subsection \<open>Frame export\<close>

lemma format_05d_012:
  "format_05d 0 = ''00000''" "format_05d 1 = ''00001''" "format_05d 2 = ''00002''"
  by code_simp+

lemma length_dec_digits: "n < 10 ^ Suc k \<Longrightarrow> length (dec_digits n) \<le> Suc k"
proof (induction k arbitrary: n)
  case 0
  then show ?case by (subst dec_digits.simps) simp
next
  case (Suc k)
  show ?case
  proof (cases "n < 10")
    case True
    then show ?thesis by (subst dec_digits.simps) simp
  next
    case False
    from Suc.prems have "n div 10 < 10 ^ Suc k" by simp
    from Suc.IH [OF this] have "length (dec_digits (n div 10)) \<le> Suc k" .
    moreover from False have "dec_digits n = dec_digits (n div 10) @ [digit_char (n mod 10)]"
      by (subst dec_digits.simps) simp
    ultimately show ?thesis by simp
  qed
qed

lemma format_05d_width:
  assumes "0 \<le> n" and "n < 100000"
  shows "length (format_05d n) = 5"
proof -
  from assms have "nat \<bar>n\<bar> < 10 ^ Suc 4" by simp
  from length_dec_digits [OF this] assms(1) show ?thesis
    by (simp add: format_05d_def Let_def)
qed

lemma digit_char_not_slash:
  assumes "d < 10"
  shows "digit_char d \<noteq> CHR ''/''"
proof
  assume "digit_char d = CHR ''/''"
  then have "(of_char (digit_char d) :: nat) = of_char (CHR ''/'')" by simp
  then have "(48 + d) mod 256 = 47" by (simp add: digit_char_def)
  with assms show False by simp
qed

lemma hd_dec_digits: "dec_digits n \<noteq> [] \<and> hd (dec_digits n) \<noteq> CHR ''/''"
proof (induction n rule: dec_digits.induct)
  case (1 n)
  show ?case
  proof (cases "n < 10")
    case True
    then show ?thesis by (subst (1 2) dec_digits.simps) (simp add: digit_char_not_slash)
  next
    case False
    with 1 show ?thesis by (subst (1 2) dec_digits.simps) simp
  qed
qed

lemma hd_format_05d: "format_05d n \<noteq> [] \<and> hd (format_05d n) \<noteq> CHR ''/''"
proof (cases "n < 0")
  case True
  then show ?thesis by (simp add: format_05d_def Let_def)
next
  case False
  show ?thesis
  proof (cases "5 - length (dec_digits (nat \<bar>n\<bar>))")
    case 0
    with False hd_dec_digits [of "nat \<bar>n\<bar>"] show ?thesis
      by (simp add: format_05d_def Let_def)
  next
    case (Suc k)
    with False hd_dec_digits [of "nat \<bar>n\<bar>"] show ?thesis
      by (simp add: format_05d_def Let_def)
  qed
qed

lemma os_path_join_inside:
  "\<exists>sep. os_path_join dir (format_05d n @ ext) = dir @ sep @ format_05d n @ ext \<and> (sep = [] \<or> sep = ''/'')"
  using hd_format_05d [of n] by (auto simp: os_path_join_def)

lemma update_saved_Inr:
  assumes "update t (self, plt) = Inr (self', plt')"
  shows "saved plt' = saved plt @ (if truthy (output_dir self)
            then (case output_dir self of None \<Rightarrow> []
                  | Some dir \<Rightarrow> [os_path_join dir (format_05d (now t) @ ''.png'')])
            else [])"
proof -
  from update_Inr [OF assms] obtain plt1 where p: "plot t (self, clf plt) = Inr (self', plt1)"
    and s: "(self', plt') = (if truthy (output_dir self') then save (now t) (self', plt1) else (self', plt1))"
    by blast
  from plot_Inr [OF p] obtain d where "self' = self\<lparr>time := time self @ [now t], data := d\<rparr>"
    and sv: "saved plt1 = saved (clf plt)" by auto
  then have od: "output_dir self' = output_dir self" by simp
  from s have "saved plt' = saved plt1 @ (if truthy (output_dir self')
            then (case output_dir self' of None \<Rightarrow> []
                  | Some dir \<Rightarrow> [os_path_join dir (format_05d (now t) @ ''.png'')])
            else [])"
    by (auto simp: save_frame split: if_splits)
  with sv od show ?thesis by (simp add: clf_def)
qed

lemma update_saved_Inl:
  assumes "update t (self, plt) = Inl (e, (self', plt'))"
  shows "saved plt' = saved plt"
proof -
  from update_Inl [OF assms] consider "plt' = plt"
    | "plot t (self, clf plt) = Inl (e, (self', plt'))"
    | "plot t (self, clf plt) = Inr (self', plt')" by blast
  then show ?thesis
  proof cases
    case 1
    then show ?thesis by simp
  next
    case 2
    from plot_Inl [OF this] show ?thesis by (simp add: clf_def)
  next
    case 3
    from plot_Inr [OF this] show ?thesis by (auto simp: clf_def)
  qed
qed

lemma do_call_saved_Inr:
  assumes "do_call c (self, plt) = Inr (self', plt')"
  shows "saved plt' = saved plt @ (if truthy (output_dir self)
            then (case output_dir self of None \<Rightarrow> []
                  | Some dir \<Rightarrow> [os_path_join dir (format_05d (now (tick_of c)) @ ''.png'')])
            else [])"
proof (cases c)
  case (Start t)
  with assms update_saved_Inr [of t "self\<lparr>fig := Some (Suc (fig_count plt))\<rparr>"
      "plt\<lparr>fig_count := Suc (fig_count plt), window_title := title self\<rparr>" self' plt']
  show ?thesis by (auto simp: do_call_update split: option.splits)
next
  case (Step t)
  with assms update_saved_Inr [of t self plt self' plt'] show ?thesis
    by (auto simp: do_call_update split: option.splits)
qed

lemma do_call_saved_Inl:
  assumes "do_call c (self, plt) = Inl (e, (self', plt'))"
  shows "saved plt' = saved plt"
proof (cases c)
  case (Start t)
  with assms update_saved_Inl [of t "self\<lparr>fig := Some (Suc (fig_count plt))\<rparr>"
      "plt\<lparr>fig_count := Suc (fig_count plt), window_title := title self\<rparr>" e self' plt']
  show ?thesis by (simp add: do_call_update)
next
  case (Step t)
  with assms update_saved_Inl [of t self plt e self' plt'] show ?thesis
    by (simp add: do_call_update)
qed

text \<open>
  Claim C8 says that every \<open>start\<close> or \<open>step\<close> call writes one image file when
  \<open>output_dir\<close> is set. \<open>update\<close> calls \<open>quit()\<close> before \<open>save\<close> when no figure is open
  after the pause: a \<open>start\<close> during which the user closes the figure redraws, raises
  \<open>SystemExit\<close> and writes no file.
\<close>

theorem frame_export_counterexample:
  "output_dir (temp_plotter 0 None None (Some ''out'')) = Some ''out''
 \<and> do_call (Start (closed_tick 0 10)) (temp_plotter 0 None None (Some ''out''), backend0)
      = Inl (SystemExit, frames_closed)
 \<and> drawn (snd frames_closed) = [([0], [10], ''b'', ''temp'')]
 \<and> saved (snd frames_closed) = []"
proof -
  have "do_call (Start (closed_tick 0 10)) (temp_plotter 0 None None (Some ''out''), backend0)
      = Inl (SystemExit, fst frames_closed, snd frames_closed)"
    unfolding frames_closed_def by (simp add: call_defs closed_tick_def temp_plotter_def)
  moreover have "drawn (snd frames_closed) = [([0], [10], ''b'', ''temp'')]" "saved (snd frames_closed) = []"
    unfolding frames_closed_def by (simp_all add: call_defs closed_tick_def temp_plotter_def)
  ultimately show ?thesis by (simp add: temp_plotter_def)
qed

text \<open>
  Claim C8 as amended. \<open>output_dir\<close> is set to a non-empty path. Every \<open>start\<close> or
  \<open>step\<close> call that returns writes exactly one file, at the path
  \<open>os.path.join(output_dir, "{0:05d}.png".format(now))\<close>, which lies in that directory;
  for \<open>0 \<le> now < 100000\<close> the name has five digits. A call that raises (a missing
  attribute, or \<open>quit()\<close> because no figure is open) writes no file.
\<close>

theorem frame_export:
  assumes "output_dir self = Some dir" and "dir \<noteq> []"
  shows "(do_call c (self, plt) = Inr (self', plt') \<longrightarrow>
            saved plt' = saved plt @ [os_path_join dir (format_05d (now (tick_of c)) @ ''.png'')])
       \<and> (do_call c (self, plt) = Inl (e, (self', plt')) \<longrightarrow> saved plt' = saved plt)
       \<and> (\<exists>sep. os_path_join dir (format_05d (now (tick_of c)) @ ''.png'')
                   = dir @ sep @ format_05d (now (tick_of c)) @ ''.png'' \<and> (sep = [] \<or> sep = ''/''))
       \<and> (0 \<le> now (tick_of c) \<and> now (tick_of c) < 100000 \<longrightarrow> length (format_05d (now (tick_of c))) = 5)"
  using assms do_call_saved_Inr [of c self plt self' plt'] do_call_saved_Inl [of c self plt e self' plt']
    format_05d_width [of "now (tick_of c)"] os_path_join_inside [of dir "now (tick_of c)" "''.png''"]
  by simp

theorem frame_export_witness:
  "output_dir (fst frames2) = Some ''out'' \<and> ''out'' \<noteq> []
 \<and> saved (snd frames2) = [''out/00000.png'', ''out/00001.png'']
 \<and> do_call (Step (temp_tick 2 9)) frames2 = Inr frames3
 \<and> saved (snd frames3) = [''out/00000.png'', ''out/00001.png'', ''out/00002.png'']
 \<and> do_call (Step (closed_tick 2 9)) frames2 = Inl (SystemExit, after (do_call (Step (closed_tick 2 9)) frames2))
 \<and> saved (snd (after (do_call (Step (closed_tick 2 9)) frames2))) = [''out/00000.png'', ''out/00001.png'']"
proof -
  have w: "frames2 = (temp_plotter 0 None None (Some ''out'')\<lparr>fig := Some 1, time := [0, 1], data := [(''temp'', [10, 12])]\<rparr>,
                snd frames2)"
    and sv: "saved (snd frames2) = [''out/00000.png'', ''out/00001.png'']"
    unfolding frames2_def by (simp_all add: call_defs temp_tick_def temp_plotter_def format_05d_012)
  have od: "output_dir (fst frames2) = Some ''out''" and ne: "''out'' \<noteq> []"
    by (subst w, simp add: temp_plotter_def, simp)
  have r: "do_call (Step (temp_tick 2 9)) (fst frames2, snd frames2) = Inr (fst frames3, snd frames3)"
    unfolding frames3_def by (subst (1 2 3 4) w) (simp add: call_defs temp_tick_def temp_plotter_def)
  let ?x = "after (do_call (Step (closed_tick 2 9)) frames2)"
  have q: "do_call (Step (closed_tick 2 9)) (fst frames2, snd frames2) = Inl (SystemExit, fst ?x, snd ?x)"
    by (subst (1 2 3 4) w) (simp add: call_defs closed_tick_def temp_plotter_def)
  from frame_export [OF od ne, where c = "Step (temp_tick 2 9)" and plt = "snd frames2" and self' = "fst frames3"
      and plt' = "snd frames3"] r sv
  have 1: "saved (snd frames3) = [''out/00000.png'', ''out/00001.png'', ''out/00002.png'']"
    by (simp add: os_path_join_def temp_tick_def format_05d_012)
  from frame_export [OF od ne, where c = "Step (closed_tick 2 9)" and plt = "snd frames2" and e = SystemExit
      and self' = "fst ?x" and plt' = "snd ?x"] q sv
  have 2: "saved (snd ?x) = [''out/00000.png'', ''out/00001.png'']"
    by simp
  from r have r': "do_call (Step (temp_tick 2 9)) frames2 = Inr frames3" by simp
  from q have q': "do_call (Step (closed_tick 2 9)) frames2 = Inl (SystemExit, ?x)" by simp
  from od ne sv r' 1 q' 2 show ?thesis by blast
qed

subsection \<open>Time-axis limits\<close>

lemma x_limits_after_call:
  assumes "do_call c (self, plt) = Inr (self', plt') \<or> do_call c (self, plt) = Inl (SystemExit, (self', plt'))"
    and "xlim self = Some (x0, x1)"
  shows "time self' = time self @ [now (tick_of c)]
     \<and> axis_xlim plt' = Some (min x0 (real_of_int (Min (set (time self')))),
                              max x1 (real_of_int (Max (set (time self')))))"
proof -
  from do_call_done [OF assms(1)] obtain f plt0 plt1
    where p: "plot (tick_of c) (self\<lparr>fig := f\<rparr>, clf plt0) = Inr (self', plt1)"
      and ax: "axis_xlim plt' = axis_xlim plt1" by blast
  from plot_Inr [OF p] obtain d xl
    where s: "self' = self\<lparr>fig := f, time := time self @ [now (tick_of c)], data := d\<rparr>"
      and xl: "x_limits self' = Inr xl"
      and a1: "axis_xlim plt1 = (case xl of None \<Rightarrow> axis_xlim (clf plt0) | Some l \<Rightarrow> Some l)"
    by auto
  from s have t: "time self' = time self @ [now (tick_of c)]" and x: "xlim self' = Some (x0, x1)"
    using assms(2) by simp_all
  from t have "time self' \<noteq> []" by simp
  from x_limits_value [OF this] xl x
  have "xl = Some (min x0 (real_of_int (Min (set (time self')))), max x1 (real_of_int (Max (set (time self')))))"
    by simp
  with a1 ax t show ?thesis by simp
qed

text \<open>
  Claim C7. A plotter is constructed with \<open>xlim = (x0, x1)\<close> and has gone through any
  calls. A further \<open>start\<close> or \<open>step\<close> call on which every tracked name is an attribute
  of \<open>env\<close> and the figure stays open returns (for \<open>step\<close>, on a started plotter), and
  after it the time-axis limits set on the axes are \<open>min(x0, min(self.time))\<close> and
  \<open>max(x1, max(self.time))\<close> over all accumulated times, the time of the call included,
  with no margin. The same limits are set by every call that redraws, also one that ends
  in \<open>quit()\<close> after the redraw. When the earlier calls all returned, the accumulated
  times are the times of all the calls.
\<close>

theorem time_axis_limits:
  assumes "init var f sc ti xl yl (Some (x0, x1)) ylm lg pa od = Inr p0"
    and "after (run calls (p0, plt0)) = (self, plt)"
  shows "(as_list var \<noteq> [] \<and> (\<forall>n \<in> set (as_list var). env (tick_of c) n \<noteq> None)
          \<and> (fig self \<noteq> None \<or> (\<exists>t. c = Start t)) \<and> get_fignums (tick_of c) \<noteq> [] \<longrightarrow>
            (\<exists>self' plt'. do_call c (self, plt) = Inr (self', plt')
               \<and> time self' = time self @ [now (tick_of c)]
               \<and> axis_xlim plt' = Some (min x0 (real_of_int (Min (set (time self @ [now (tick_of c)])))),
                                        max x1 (real_of_int (Max (set (time self @ [now (tick_of c)])))))))
     \<and> (\<forall>self' plt'. do_call c (self, plt) = Inr (self', plt')
                     \<or> do_call c (self, plt) = Inl (SystemExit, (self', plt')) \<longrightarrow>
            time self' = time self @ [now (tick_of c)]
          \<and> axis_xlim plt' = Some (min x0 (real_of_int (Min (set (time self @ [now (tick_of c)])))),
                                   max x1 (real_of_int (Max (set (time self @ [now (tick_of c)]))))))
     \<and> (run calls (p0, plt0) = Inr (self, plt) \<longrightarrow> time self = map (\<lambda>c. now (tick_of c)) calls)"
proof -
  from init_Inr [OF assms(1)] have v0: "var_names p0 = as_list var" and x0: "xlim p0 = Some (x0, x1)"
    and t0: "time p0 = []" by simp_all
  from run_same_config [of "(p0, plt0)" calls] assms(2) v0 x0
  have v: "var_names self = as_list var" and x: "xlim self = Some (x0, x1)"
    by (simp_all add: same_config_def)
  from wf_run [of "(p0, plt0)" calls] wf_init [OF assms(1)] assms(2) have wf: "wf self" by simp
  have B: "time self' = time self @ [now (tick_of c)]
          \<and> axis_xlim plt' = Some (min x0 (real_of_int (Min (set (time self @ [now (tick_of c)])))),
                                   max x1 (real_of_int (Max (set (time self @ [now (tick_of c)])))))"
    if "do_call c (self, plt) = Inr (self', plt') \<or> do_call c (self, plt) = Inl (SystemExit, (self', plt'))"
    for self' plt'
    using x_limits_after_call [OF that x] by simp
  have A: "\<exists>self' plt'. do_call c (self, plt) = Inr (self', plt')
               \<and> time self' = time self @ [now (tick_of c)]
               \<and> axis_xlim plt' = Some (min x0 (real_of_int (Min (set (time self @ [now (tick_of c)])))),
                                        max x1 (real_of_int (Max (set (time self @ [now (tick_of c)])))))"
    if h: "as_list var \<noteq> [] \<and> (\<forall>n \<in> set (as_list var). env (tick_of c) n \<noteq> None)
          \<and> (fig self \<noteq> None \<or> (\<exists>t. c = Start t)) \<and> get_fignums (tick_of c) \<noteq> []"
  proof -
    from h v have "readable self (tick_of c)" "ylim self \<noteq> None \<longrightarrow> var_names self \<noteq> []"
      "fig self \<noteq> None \<or> (\<exists>t. c = Start t)" "get_fignums (tick_of c) \<noteq> []"
      by (simp_all add: readable_def)
    from do_call_returns [OF wf this, of plt] obtain w' where "do_call c (self, plt) = Inr w'" ..
    then have r: "do_call c (self, plt) = Inr (fst w', snd w')" by simp
    from B [OF disjI1 [OF r]] r show ?thesis by blast
  qed
  have C: "time self = map (\<lambda>c. now (tick_of c)) calls" if "run calls (p0, plt0) = Inr (self, plt)"
    using run_times [OF that] t0 by simp
  from A B C show ?thesis by blast
qed

theorem time_axis_limits_witness:
  "init (Str ''temp'') (Str ''b'') 0 None ''Time'' None (Some (2, 5)) None None (1 / 1000) None
     = Inr (temp_plotter 0 (Some (2, 5)) None None)
 \<and> run [Start (temp_tick 3 10), Step (temp_tick 1 12)] (temp_plotter 0 (Some (2, 5)) None None, backend0)
     = Inr xl_run2
 \<and> time (fst xl_run2) = [3, 1] \<and> axis_xlim (snd xl_run2) = Some (1, 5)
 \<and> as_list (Str ''temp'') \<noteq> [] \<and> env (tick_of (Step (temp_tick 9 9))) ''temp'' = Some 9
 \<and> fig (fst xl_run2) \<noteq> None \<and> get_fignums (tick_of (Step (temp_tick 9 9))) \<noteq> []
 \<and> do_call (Step (temp_tick 9 9)) xl_run2 = Inr xl_run3
 \<and> time (fst xl_run3) = [3, 1, 9]
 \<and> axis_xlim (snd xl_run3) = Some (1, 9)"
proof -
  note i = init_temp [of 0 "Some (2, 5)" None None]
  have w: "fst xl_run2 = temp_plotter 0 (Some (2, 5)) None None\<lparr>fig := Some 1, time := [3, 1], data := [(''temp'', [10, 12])]\<rparr>"
    and l2: "axis_xlim (snd xl_run2) = Some (1, 5)"
    unfolding xl_run2_def by (simp_all add: call_defs temp_tick_def temp_plotter_def)
  have r2: "run [Start (temp_tick 3 10), Step (temp_tick 1 12)] (temp_plotter 0 (Some (2, 5)) None None, backend0)
     = Inr (fst xl_run2, snd xl_run2)"
    unfolding xl_run2_def by (simp add: call_defs temp_tick_def temp_plotter_def)
  then have a: "after (run [Start (temp_tick 3 10), Step (temp_tick 1 12)] (temp_plotter 0 (Some (2, 5)) None None, backend0))
     = (fst xl_run2, snd xl_run2)" by simp
  have t2: "time (fst xl_run2) = [3, 1]" and fg: "fig (fst xl_run2) \<noteq> None"
    by (simp_all add: w)
  have ne: "as_list (Str ''temp'') \<noteq> []" by simp
  have e: "env (tick_of (Step (temp_tick 9 9))) ''temp'' = Some 9"
    and g: "get_fignums (tick_of (Step (temp_tick 9 9))) \<noteq> []"
    and n: "now (tick_of (Step (temp_tick 9 9))) = 9"
    by (simp_all add: temp_tick_def)
  note main = time_axis_limits [OF i a, where c = "Step (temp_tick 9 9)"]
  have h: "as_list (Str ''temp'') \<noteq> []
      \<and> (\<forall>n \<in> set (as_list (Str ''temp'')). env (tick_of (Step (temp_tick 9 9))) n \<noteq> None)
      \<and> (fig (fst xl_run2) \<noteq> None \<or> (\<exists>t. Step (temp_tick 9 9) = Start t))
      \<and> get_fignums (tick_of (Step (temp_tick 9 9))) \<noteq> []"
    using e fg g by simp
  from mp [OF main [THEN conjunct1] h] obtain self' plt'
    where r: "do_call (Step (temp_tick 9 9)) (fst xl_run2, snd xl_run2) = Inr (self', plt')"
      and t: "time self' = time (fst xl_run2) @ [now (tick_of (Step (temp_tick 9 9)))]"
      and l: "axis_xlim plt' = Some (min 2 (real_of_int (Min (set (time (fst xl_run2) @ [now (tick_of (Step (temp_tick 9 9)))])))),
                                    max 5 (real_of_int (Max (set (time (fst xl_run2) @ [now (tick_of (Step (temp_tick 9 9)))])))))"
    by blast
  from r have x3: "xl_run3 = (self', plt')" by (simp add: xl_run3_def)
  from t t2 n have t3: "time (fst xl_run3) = [3, 1, 9]" by (simp add: x3)
  from l t2 n have l3: "axis_xlim (snd xl_run3) = Some (1, 9)" by (simp add: x3)
  from r x3 have r3: "do_call (Step (temp_tick 9 9)) xl_run2 = Inr xl_run3" by simp
  from r2 have r2': "run [Start (temp_tick 3 10), Step (temp_tick 1 12)] (temp_plotter 0 (Some (2, 5)) None None, backend0)
     = Inr xl_run2" by simp
  from i r2' t2 l2 ne e fg g r3 t3 l3 show ?thesis by blast
qed

end
